theory Spec2Isabelle
  imports Complex_Main "HOL-Library.Multiset" "HOL-Library.Monad_Syntax"
begin

section \<open>Data model of \<open>src/app/index.tsx\<close>\<close>

subsection \<open>Numbers\<close>

text \<open>
  The \<open>amount\<close> of an expense is a JavaScript number, an IEEE 754 double. A finite
  double is represented by the rational it denotes (the two zeros coincide); the three
  values that are not finite are kept apart, because \<open>parseFloat\<close> produces them and
  \<open>JSON.stringify\<close> treats them differently.
\<close>

datatype number = Num rat | NaN | PosInfinity | NegInfinity

fun isFinite :: "number \<Rightarrow> bool" where
  "isFinite (Num r) = True"
| "isFinite NaN = False"
| "isFinite PosInfinity = False"
| "isFinite NegInfinity = False"

text \<open>
  Rounding a rational to the nearest double, ties to the even significand: the result
  is a multiple of \<open>2 ^ q\<close>, where \<open>q\<close> is 52 below the binary exponent of the value
  and never below \<open>-1074\<close>, the exponent of the subnormal numbers; a result of
  \<open>2 ^ 1024\<close> or more is an infinity.
\<close>

definition pow2 :: "int \<Rightarrow> rat" where
  "pow2 e = (if 0 \<le> e then 2 ^ nat e else 1 / 2 ^ nat (- e))"

function bitLength :: "int \<Rightarrow> int" where
  "bitLength n = (if n \<le> 0 then 0 else 1 + bitLength (n div 2))"
  by pat_completeness auto
termination
  by (relation "measure nat") simp_all

declare bitLength.simps [simp del]

text \<open>The binary exponent of a positive rational: \<open>2 ^ e \<le> a < 2 ^ (e + 1)\<close>.\<close>

definition floorLog2 :: "rat \<Rightarrow> int" where
  "floorLog2 a =
     (if 1 \<le> a then bitLength \<lfloor>a\<rfloor> - 1 else - bitLength (\<lceil>1 / a\<rceil> - 1))"

definition roundHalfEven :: "rat \<Rightarrow> int" where
  "roundHalfEven x =
     (let f = \<lfloor>x\<rfloor>; r = x - of_int f
      in if r < 1 / 2 then f else if 1 / 2 < r then f + 1 else if even f then f else f + 1)"

definition roundDouble :: "rat \<Rightarrow> number" where
  "roundDouble r =
     (if r = 0 then Num 0
      else
        let a = \<bar>r\<bar>;
            q = max (floorLog2 a - 52) (- 1074);
            v = of_int (roundHalfEven (a / pow2 q)) * pow2 q
        in if pow2 1024 \<le> v then (if r < 0 then NegInfinity else PosInfinity)
           else Num (if r < 0 then - v else v))"

text \<open>The operator \<open>+\<close> on two numbers: the exact sum of two finite doubles, rounded.\<close>

fun addNumber :: "number \<Rightarrow> number \<Rightarrow> number" where
  "addNumber (Num a) (Num b) = roundDouble (a + b)"
| "addNumber (Num a) NaN = NaN"
| "addNumber (Num a) PosInfinity = PosInfinity"
| "addNumber (Num a) NegInfinity = NegInfinity"
| "addNumber NaN y = NaN"
| "addNumber PosInfinity (Num b) = PosInfinity"
| "addNumber PosInfinity NaN = NaN"
| "addNumber PosInfinity PosInfinity = PosInfinity"
| "addNumber PosInfinity NegInfinity = NaN"
| "addNumber NegInfinity (Num b) = NegInfinity"
| "addNumber NegInfinity NaN = NaN"
| "addNumber NegInfinity PosInfinity = NaN"
| "addNumber NegInfinity NegInfinity = NegInfinity"

subsection \<open>Expenses and trackers\<close>

text \<open>
  The interfaces \<open>Expense\<close> and \<open>ExpenseTracker\<close>. The field \<open>id\<close> of the source is
  \<open>eid\<close> for an expense and \<open>tid\<close> for a tracker. Identifiers are readings of the
  clock (\<open>Date.now()\<close>, milliseconds since the epoch) and a \<open>date\<close> is the time value
  of a \<open>Date\<close> object built by the application (\<open>new Date()\<close> or the date picker),
  both integers. The \<open>status\<close> is the string the source stores and compares.
\<close>

record Expense =
  eid :: int
  title :: string
  amount :: number

record ExpenseTracker =
  tid :: int
  name :: string
  date :: int
  expenses :: "Expense list"
  status :: string
  expanded :: bool

text \<open>
  The two status literals, \<open>"In progress"\<close> followed by the warning sign (U+26A0 U+FE0F)
  and \<open>"Cleared"\<close> followed by the check mark (U+2705), in UTF-8.
\<close>

definition InProgress :: string where
  "InProgress = ''In progress '' @ [CHR 0xE2, CHR 0x9A, CHR 0xA0, CHR 0xEF, CHR 0xB8, CHR 0x8F]"

definition Cleared :: string where
  "Cleared = ''Cleared '' @ [CHR 0xE2, CHR 0x9C, CHR 0x85]"

definition validStatus :: "string \<Rightarrow> bool" where
  "validStatus s = (s = InProgress \<or> s = Cleared)"

definition statusInv :: "ExpenseTracker list \<Rightarrow> bool" where
  "statusInv ts = list_all (\<lambda>t. validStatus (status t)) ts"

text \<open>
  The time value of a \<open>Date\<close> object is at most \<open>8.64 * 10 ^ 15\<close> milliseconds from the
  epoch: every tracker's date is such a value.
\<close>

definition dateInv :: "ExpenseTracker list \<Rightarrow> bool" where
  "dateInv ts = list_all (\<lambda>t. \<bar>date t\<bar> \<le> 8640000000000000) ts"

subsection \<open>Component state\<close>

text \<open>The six \<open>useState\<close> cells of the component \<open>App\<close>.\<close>

record App =
  trackers :: "ExpenseTracker list"
  trackerName :: string
  trackerDate :: "int option"
  showDatePicker :: bool
  expenseTitle :: string
  expenseAmount :: string

section \<open>Operations\<close>

subsection \<open>\<open>Array.prototype.sort\<close>\<close>

text \<open>
  The comparator returns a number; \<open>None\<close> stands for \<open>NaN\<close>, which the sort reads as
  \<open>+0\<close>. The sort is stable: an element stays in front of a later one unless the
  comparator puts it strictly behind. It is written as an insertion sort; every
  conforming sort returns the same list when the comparator is a consistent order.
\<close>

definition sortCompare :: "('a \<Rightarrow> 'a \<Rightarrow> int option) \<Rightarrow> 'a \<Rightarrow> 'a \<Rightarrow> int" where
  "sortCompare cmp x y = (case cmp x y of None \<Rightarrow> 0 | Some v \<Rightarrow> v)"

fun insertJS :: "('a \<Rightarrow> 'a \<Rightarrow> int option) \<Rightarrow> 'a \<Rightarrow> 'a list \<Rightarrow> 'a list" where
  "insertJS cmp x [] = [x]"
| "insertJS cmp x (y # ys) =
     (if sortCompare cmp x y \<le> 0 then x # y # ys else y # insertJS cmp x ys)"

definition sortJS :: "('a \<Rightarrow> 'a \<Rightarrow> int option) \<Rightarrow> 'a list \<Rightarrow> 'a list" where
  "sortJS cmp xs = foldr (insertJS cmp) xs []"

text \<open>
  The same sort for a comparator that reads the clock, so that its answer depends on
  when it is asked: the comparisons are numbered in the order the insertion sort makes
  them, \<open>cmp k\<close> is the comparator at the comparison of number \<open>k\<close>, and the number of
  comparisons made so far is passed along.
\<close>

fun insertTimed ::
  "(nat \<Rightarrow> 'a \<Rightarrow> 'a \<Rightarrow> int option) \<Rightarrow> nat \<Rightarrow> 'a \<Rightarrow> 'a list \<Rightarrow> 'a list \<times> nat" where
  "insertTimed cmp k x [] = ([x], k)"
| "insertTimed cmp k x (y # ys) =
     (if sortCompare (cmp k) x y \<le> 0 then (x # y # ys, Suc k)
      else (case insertTimed cmp (Suc k) x ys of (zs, k') \<Rightarrow> (y # zs, k')))"

fun sortTimed ::
  "(nat \<Rightarrow> 'a \<Rightarrow> 'a \<Rightarrow> int option) \<Rightarrow> nat \<Rightarrow> 'a list \<Rightarrow> 'a list \<times> nat" where
  "sortTimed cmp k [] = ([], k)"
| "sortTimed cmp k (x # xs) =
     (case sortTimed cmp k xs of (ys, k') \<Rightarrow> insertTimed cmp k' x ys)"

subsection \<open>Tracker list manager\<close>

text \<open>
  \<open>addTracker\<close> reads the clock up to three times: for the identifier, for the default
  date and for the reset of the date field. The readings are the parameters \<open>idNow\<close>,
  \<open>dateNow\<close> and \<open>resetNow\<close>.
\<close>

definition byDate :: "ExpenseTracker \<Rightarrow> ExpenseTracker \<Rightarrow> int option" where
  "byDate a b = Some (date a - date b)"

definition addTracker :: "int \<Rightarrow> int \<Rightarrow> int \<Rightarrow> App \<Rightarrow> App" where
  "addTracker idNow dateNow resetNow s =
     (if trackerName s = [] then s
      else
        let newTracker =
          \<lparr> tid = idNow,
            name = trackerName s,
            date = (case trackerDate s of Some d \<Rightarrow> d | None \<Rightarrow> dateNow),
            expenses = [],
            status = InProgress,
            expanded = False \<rparr>
        in s\<lparr> trackers := sortJS byDate (trackers s @ [newTracker]),
              trackerName := [],
              trackerDate := Some resetNow \<rparr>)"

definition deleteTracker :: "int \<Rightarrow> App \<Rightarrow> App" where
  "deleteTracker trackerId s =
     s\<lparr> trackers := filter (\<lambda>tracker. tid tracker \<noteq> trackerId) (trackers s) \<rparr>"

subsection \<open>Expense list manager\<close>

text \<open>
  \<open>parseFloat\<close> is the host's function from strings to numbers, a parameter here and
  modelled below. \<open>Date.now()\<close> is called inside the callback of \<open>map\<close>, once for every
  tracker that has the identifier: \<open>now k\<close> is its reading in the call for the tracker
  at index \<open>k\<close>.
\<close>

definition addExpense ::
  "(string \<Rightarrow> number) \<Rightarrow> (nat \<Rightarrow> int) \<Rightarrow> int \<Rightarrow> string \<Rightarrow> string \<Rightarrow> App \<Rightarrow> App" where
  "addExpense parseFloat now trackerId ttl amt s =
     (if ttl = [] \<or> amt = [] then s
      else s\<lparr> trackers :=
                 map (\<lambda>(k, tracker).
                        if tid tracker = trackerId
                        then tracker\<lparr> expenses := expenses tracker @
                               [\<lparr> eid = now k, title = ttl, amount = parseFloat amt \<rparr>] \<rparr>
                        else tracker) (enumerate 0 (trackers s)),
              expenseTitle := [],
              expenseAmount := [] \<rparr>)"

definition deleteExpense :: "int \<Rightarrow> int \<Rightarrow> App \<Rightarrow> App" where
  "deleteExpense trackerId expenseId s =
     s\<lparr> trackers :=
          map (\<lambda>tracker.
                 if tid tracker = trackerId
                 then tracker\<lparr> expenses :=
                        filter (\<lambda>expense. eid expense \<noteq> expenseId) (expenses tracker) \<rparr>
                 else tracker) (trackers s) \<rparr>"

definition toggleStatus :: "int \<Rightarrow> App \<Rightarrow> App" where
  "toggleStatus trackerId s =
     s\<lparr> trackers :=
          map (\<lambda>tracker.
                 if tid tracker = trackerId
                 then tracker\<lparr> status :=
                        (if status tracker = InProgress then Cleared else InProgress) \<rparr>
                 else tracker) (trackers s) \<rparr>"

definition toggleExpand :: "int \<Rightarrow> App \<Rightarrow> App" where
  "toggleExpand trackerId s =
     s\<lparr> trackers :=
          map (\<lambda>tracker.
                 if tid tracker = trackerId
                 then tracker\<lparr> expanded := \<not> expanded tracker \<rparr>
                 else tracker) (trackers s) \<rparr>"

definition getTotal :: "ExpenseTracker \<Rightarrow> number" where
  "getTotal tracker =
     foldl (\<lambda>sum expense. addNumber sum (amount expense)) (Num 0) (expenses tracker)"

section \<open>Host functions\<close>

subsection \<open>\<open>parseFloat\<close>\<close>

text \<open>
  \<open>parseFloat\<close> as ECMAScript defines it: leading white space is dropped, the longest
  prefix of the rest that is a decimal literal (a sign, then \<open>Infinity\<close> or digits with
  an optional fraction and an optional exponent) is read, and what follows it is
  ignored; without such a prefix the result is \<open>NaN\<close>. The value of the literal is
  rounded to a double. Strings are sequences of bytes in UTF-8, so a white space
  character beyond ASCII is two or three bytes wide.
\<close>

definition byte :: "char \<Rightarrow> nat" where
  "byte c = of_char c"

definition whiteSpaceWidth :: "string \<Rightarrow> nat" where
  "whiteSpaceWidth str =
     (case map byte str of
        [] \<Rightarrow> 0
      | a # rest \<Rightarrow>
          if a \<in> {9, 10, 11, 12, 13, 32} then 1
          else (case rest of
                  [] \<Rightarrow> 0
                | b # rest' \<Rightarrow>
                    if a = 194 \<and> b = 160 then 2
                    else (case rest' of
                            [] \<Rightarrow> 0
                          | c # _ \<Rightarrow>
                              if (a = 225 \<and> b = 154 \<and> c = 128) \<or>
                                 (a = 226 \<and> b = 128 \<and>
                                    (128 \<le> c \<and> c \<le> 138 \<or> c = 168 \<or> c = 169 \<or> c = 175)) \<or>
                                 (a = 226 \<and> b = 129 \<and> c = 159) \<or>
                                 (a = 227 \<and> b = 128 \<and> c = 128) \<or>
                                 (a = 239 \<and> b = 187 \<and> c = 191)
                              then 3 else 0)))"

function trimStart :: "string \<Rightarrow> string" where
  "trimStart str =
     (if whiteSpaceWidth str = 0 then str else trimStart (drop (whiteSpaceWidth str) str))"
  by pat_completeness auto
termination
proof (relation "measure length")
  show "wf (measure length)"
    by simp
next
  fix str :: string
  assume wide: "whiteSpaceWidth str \<noteq> 0"
  have "whiteSpaceWidth [] = 0"
    by (simp add: whiteSpaceWidth_def)
  with wide have "str \<noteq> []"
    by auto
  with wide show "(drop (whiteSpaceWidth str) str, str) \<in> measure length"
    by simp
qed

declare trimStart.simps [simp del]

definition isDigit :: "char \<Rightarrow> bool" where
  "isDigit c = (48 \<le> byte c \<and> byte c \<le> 57)"

fun digitsValue :: "int \<Rightarrow> string \<Rightarrow> int" where
  "digitsValue acc [] = acc"
| "digitsValue acc (c # cs) = digitsValue (10 * acc + (int (byte c) - 48)) cs"

definition pow10 :: "int \<Rightarrow> rat" where
  "pow10 e = (if 0 \<le> e then 10 ^ nat e else 1 / 10 ^ nat (- e))"

text \<open>
  The exponent part is an exponent indicator, an optional sign and at least one digit;
  anything less is not part of the literal.
\<close>

definition exponentPart :: "string \<Rightarrow> int \<times> string" where
  "exponentPart str =
     (case str of
        [] \<Rightarrow> (0, str)
      | c # cs \<Rightarrow>
          if c = CHR ''e'' \<or> c = CHR ''E'' then
            (let (negative, ds) =
                   (case cs of
                      [] \<Rightarrow> (False, cs)
                    | sg # cs' \<Rightarrow>
                        if sg = CHR ''-'' then (True, cs')
                        else if sg = CHR ''+'' then (False, cs') else (False, cs));
                 digits = takeWhile isDigit ds
             in if digits = [] then (0, str)
                else ((if negative then - digitsValue 0 digits else digitsValue 0 digits),
                      dropWhile isDigit ds))
          else (0, str))"

definition unsignedLiteral :: "string \<Rightarrow> (number \<times> string) option" where
  "unsignedLiteral str =
     (if take 8 str = ''Infinity'' then Some (PosInfinity, drop 8 str)
      else
        let whole = takeWhile isDigit str;
            afterWhole = dropWhile isDigit str;
            dotted = (afterWhole \<noteq> [] \<and> hd afterWhole = CHR ''.'');
            fraction = (if dotted then takeWhile isDigit (tl afterWhole) else []);
            afterMantissa =
              (if dotted \<and> (whole \<noteq> [] \<or> fraction \<noteq> [])
               then dropWhile isDigit (tl afterWhole) else afterWhole)
        in if whole = [] \<and> fraction = [] then None
           else
             let (e, rest) = exponentPart afterMantissa
             in Some (roundDouble (of_int (digitsValue 0 (whole @ fraction)) *
                                   pow10 (e - int (length fraction))),
                      rest))"

definition negate :: "number \<Rightarrow> number" where
  "negate n =
     (case n of Num r \<Rightarrow> Num (- r) | NaN \<Rightarrow> NaN
      | PosInfinity \<Rightarrow> NegInfinity | NegInfinity \<Rightarrow> PosInfinity)"

text \<open>The number that a string starts with, and the rest of the string.\<close>

definition numberPrefix :: "string \<Rightarrow> (number \<times> string) option" where
  "numberPrefix str =
     (case str of
        [] \<Rightarrow> None
      | c # cs \<Rightarrow>
          if c = CHR ''+'' then unsignedLiteral cs
          else if c = CHR ''-'' then
            map_option (\<lambda>(n, rest). (negate n, rest)) (unsignedLiteral cs)
          else unsignedLiteral str)"

definition parseFloatES :: "string \<Rightarrow> number" where
  "parseFloatES str =
     (case numberPrefix (trimStart str) of None \<Rightarrow> NaN | Some (n, rest) \<Rightarrow> n)"

subsection \<open>Dates\<close>

text \<open>
  The time value of a \<open>Date\<close> is a number of milliseconds since the epoch. The
  functions below are the abstract operations of ECMAScript on time values, with
  their names.
\<close>

definition msPerDay :: int where
  "msPerDay = 86400000"

definition Day :: "int \<Rightarrow> int" where
  "Day t = t div msPerDay"

definition DaysInYear :: "int \<Rightarrow> int" where
  "DaysInYear y =
     (if y mod 4 \<noteq> 0 then 365 else if y mod 100 \<noteq> 0 then 366
      else if y mod 400 \<noteq> 0 then 365 else 366)"

definition DayFromYear :: "int \<Rightarrow> int" where
  "DayFromYear y =
     365 * (y - 1970) + (y - 1969) div 4 - (y - 1901) div 100 + (y - 1601) div 400"

lemma div_step:
  fixes a n :: int
  assumes "0 < n"
  shows "(a + 1) div n = a div n + (if n dvd a + 1 then 1 else 0)"
proof (cases "a mod n + 1 = n")
  case True
  have "a + 1 = n * (a div n) + (a mod n + 1)"
    by simp
  then have whole: "a + 1 = n * (a div n + 1) + 0"
    unfolding True by (simp add: algebra_simps)
  have "(a + 1) div n = a div n + 1"
    using int_div_pos_eq [OF whole] assms by simp
  moreover have "n dvd a + 1"
    using whole by (simp add: dvd_def)
  ultimately show ?thesis by simp
next
  case False
  have bounds: "0 \<le> a mod n" "a mod n < n"
    using assms by simp_all
  have eq: "a + 1 = n * (a div n) + (a mod n + 1)"
    by simp
  have small: "0 \<le> a mod n + 1" "a mod n + 1 < n"
    using bounds False by simp_all
  have "(a + 1) div n = a div n"
    using int_div_pos_eq [OF eq small] .
  moreover have "(a + 1) mod n = a mod n + 1"
    using int_mod_pos_eq [OF eq small] .
  then have "\<not> n dvd a + 1"
    using bounds by (simp add: dvd_eq_mod_eq_0)
  ultimately show ?thesis by simp
qed

lemma DayFromYear_Suc: "DayFromYear (y + 1) = DayFromYear y + DaysInYear y"
proof -
  have d4: "(y - 1968) div 4 = (y - 1969) div 4 + (if 4 dvd y then 1 else 0)"
  proof -
    have "(4::int) dvd 1968" by simp
    then have "(4 dvd y - 1968) = (4 dvd y)"
      by (rule dvd_diff_left_iff)
    then show ?thesis
      using div_step [of 4 "y - 1969"] by simp
  qed
  have d100: "(y - 1900) div 100 = (y - 1901) div 100 + (if 100 dvd y then 1 else 0)"
  proof -
    have "(100::int) dvd 1900" by simp
    then have "(100 dvd y - 1900) = (100 dvd y)"
      by (rule dvd_diff_left_iff)
    then show ?thesis
      using div_step [of 100 "y - 1901"] by simp
  qed
  have d400: "(y - 1600) div 400 = (y - 1601) div 400 + (if 400 dvd y then 1 else 0)"
  proof -
    have "(400::int) dvd 1600" by simp
    then have "(400 dvd y - 1600) = (400 dvd y)"
      by (rule dvd_diff_left_iff)
    then show ?thesis
      using div_step [of 400 "y - 1601"] by simp
  qed
  have c1: "100 dvd y \<Longrightarrow> 4 dvd y"
    by (rule dvd_trans [of 4 100]) simp_all
  have c2: "400 dvd y \<Longrightarrow> 100 dvd y"
    by (rule dvd_trans [of 100 400]) simp_all
  have "DayFromYear (y + 1) =
      365 * (y - 1969) + (y - 1968) div 4 - (y - 1900) div 100 + (y - 1600) div 400"
    by (simp add: DayFromYear_def)
  then show ?thesis
    unfolding d4 d100 d400 using c1 c2
    by (auto simp add: DayFromYear_def DaysInYear_def mod_eq_0_iff_dvd)
qed

lemma DaysInYear_cases: "DaysInYear y = 365 \<or> DaysInYear y = 366"
  by (simp add: DaysInYear_def)

lemma DayFromYear_pred: "DayFromYear (y - 1) = DayFromYear y - DaysInYear (y - 1)"
  using DayFromYear_Suc [of "y - 1"] by simp

text \<open>
  \<open>YearFromTime\<close> is the largest year that starts on or before the day. It is found
  from an estimate by stepping down to a year that starts on or before the day and then
  up to the last such year.
\<close>

function yearDown :: "int \<Rightarrow> int \<Rightarrow> int" where
  "yearDown day y = (if day < DayFromYear y then yearDown day (y - 1) else y)"
  by pat_completeness auto
termination
proof (relation "measure (\<lambda>(day, y). nat (DayFromYear y - day))")
  show "wf (measure (\<lambda>(day, y). nat (DayFromYear y - day)))"
    by simp
next
  fix day y :: int
  assume "day < DayFromYear y"
  then show "((day, y - 1), (day, y)) \<in> measure (\<lambda>(day, y). nat (DayFromYear y - day))"
    using DaysInYear_cases [of "y - 1"] by (auto simp add: DayFromYear_pred)
qed

function yearUp :: "int \<Rightarrow> int \<Rightarrow> int" where
  "yearUp day y = (if DayFromYear (y + 1) \<le> day then yearUp day (y + 1) else y)"
  by pat_completeness auto
termination
proof (relation "measure (\<lambda>(day, y). nat (day - DayFromYear y))")
  show "wf (measure (\<lambda>(day, y). nat (day - DayFromYear y)))"
    by simp
next
  fix day y :: int
  assume "DayFromYear (y + 1) \<le> day"
  then show "((day, y + 1), (day, y)) \<in> measure (\<lambda>(day, y). nat (day - DayFromYear y))"
    using DaysInYear_cases [of y] by (auto simp add: DayFromYear_Suc)
qed

declare yearDown.simps [simp del] yearUp.simps [simp del]

definition YearFromDay :: "int \<Rightarrow> int" where
  "YearFromDay day = yearUp day (yearDown day (1970 + day div 365))"

definition InLeapYear :: "int \<Rightarrow> int" where
  "InLeapYear y = (if DaysInYear y = 366 then 1 else 0)"

text \<open>The day within the year on which month \<open>m\<close> (from 0) starts.\<close>

definition monthStart :: "int \<Rightarrow> int \<Rightarrow> int" where
  "monthStart m leap =
     (if m = 0 then 0 else if m = 1 then 31 else if m = 2 then 59 + leap
      else if m = 3 then 90 + leap else if m = 4 then 120 + leap
      else if m = 5 then 151 + leap else if m = 6 then 181 + leap
      else if m = 7 then 212 + leap else if m = 8 then 243 + leap
      else if m = 9 then 273 + leap else if m = 10 then 304 + leap
      else if m = 11 then 334 + leap else 365 + leap)"

definition MonthFromDay :: "int \<Rightarrow> int \<Rightarrow> int" where
  "MonthFromDay d leap =
     (if d < 31 then 0 else if d < 59 + leap then 1 else if d < 90 + leap then 2
      else if d < 120 + leap then 3 else if d < 151 + leap then 4
      else if d < 181 + leap then 5 else if d < 212 + leap then 6
      else if d < 243 + leap then 7 else if d < 273 + leap then 8
      else if d < 304 + leap then 9 else if d < 334 + leap then 10 else 11)"

definition DateFromDay :: "int \<Rightarrow> int \<Rightarrow> int" where
  "DateFromDay d leap = d - monthStart (MonthFromDay d leap) leap + 1"

definition DaysInMonth :: "int \<Rightarrow> int \<Rightarrow> int" where
  "DaysInMonth m leap = monthStart (m + 1) leap - monthStart m leap"

definition HourFromTime :: "int \<Rightarrow> int" where
  "HourFromTime t = (t div 3600000) mod 24"

definition MinFromTime :: "int \<Rightarrow> int" where
  "MinFromTime t = (t div 60000) mod 60"

definition SecFromTime :: "int \<Rightarrow> int" where
  "SecFromTime t = (t div 1000) mod 60"

definition msFromTime :: "int \<Rightarrow> int" where
  "msFromTime t = t mod 1000"

definition MakeTime :: "int \<Rightarrow> int \<Rightarrow> int \<Rightarrow> int \<Rightarrow> int" where
  "MakeTime h m s milli = h * 3600000 + m * 60000 + s * 1000 + milli"

definition MakeDay :: "int \<Rightarrow> int \<Rightarrow> int \<Rightarrow> int" where
  "MakeDay y m d = DayFromYear y + monthStart m (InLeapYear y) + d - 1"

definition MakeDate :: "int \<Rightarrow> int \<Rightarrow> int" where
  "MakeDate day time = day * msPerDay + time"

definition TimeClip :: "int \<Rightarrow> int option" where
  "TimeClip t = (if \<bar>t\<bar> \<le> 8640000000000000 then Some t else None)"

text \<open>
  \<open>Date.prototype.toISOString\<close>: \<open>YYYY-MM-DDTHH:mm:ss.sssZ\<close>, the year with a sign and
  six digits when it is not between 0 and 9999.
\<close>

definition digitChar :: "int \<Rightarrow> char" where
  "digitChar n = char_of (48 + n)"

definition pad2 :: "int \<Rightarrow> string" where
  "pad2 n = [digitChar (n div 10), digitChar (n mod 10)]"

definition pad3 :: "int \<Rightarrow> string" where
  "pad3 n = digitChar (n div 100) # pad2 (n mod 100)"

definition pad4 :: "int \<Rightarrow> string" where
  "pad4 n = digitChar (n div 1000) # pad3 (n mod 1000)"

definition pad6 :: "int \<Rightarrow> string" where
  "pad6 n = digitChar (n div 100000) # digitChar (n mod 100000 div 10000) # pad4 (n mod 10000)"

definition yearText :: "int \<Rightarrow> string" where
  "yearText y =
     (if 0 \<le> y \<and> y \<le> 9999 then pad4 y
      else (if y < 0 then CHR ''-'' else CHR ''+'') # pad6 \<bar>y\<bar>)"

definition toISOString :: "int \<Rightarrow> string" where
  "toISOString t =
     (let day = Day t; y = YearFromDay day; leap = InLeapYear y; d = day - DayFromYear y
      in yearText y @ ''-'' @ pad2 (MonthFromDay d leap + 1) @ ''-'' @ pad2 (DateFromDay d leap) @
         ''T'' @ pad2 (HourFromTime t) @ '':'' @ pad2 (MinFromTime t) @ '':'' @
         pad2 (SecFromTime t) @ ''.'' @ pad3 (msFromTime t) @ ''Z'')"

text \<open>
  Reading a string in that form back: the fields must be digits, the month, the day of
  the month, the hour, the minute and the second must exist, and the time value must
  be one a \<open>Date\<close> can hold. \<open>None\<close> says that the string is not in this form; what a
  \<open>Date\<close> makes of such a string is left to the host.
\<close>

definition digitVal :: "char \<Rightarrow> int option" where
  "digitVal c = (if 48 \<le> (of_char c :: int) \<and> (of_char c :: int) \<le> 57
                 then Some (of_char c - 48) else None)"

fun takeDigits :: "nat \<Rightarrow> int \<Rightarrow> string \<Rightarrow> (int \<times> string) option" where
  "takeDigits 0 acc str = Some (acc, str)"
| "takeDigits (Suc k) acc [] = None"
| "takeDigits (Suc k) acc (c # cs) =
     (case digitVal c of None \<Rightarrow> None | Some v \<Rightarrow> takeDigits k (10 * acc + v) cs)"

fun expect :: "char \<Rightarrow> string \<Rightarrow> string option" where
  "expect c [] = None"
| "expect c (x # xs) = (if x = c then Some xs else None)"

definition yearPart :: "string \<Rightarrow> (int \<times> string) option" where
  "yearPart str =
     (case str of
        [] \<Rightarrow> None
      | c # cs \<Rightarrow>
          if c = CHR ''+'' then takeDigits 6 0 cs
          else if c = CHR ''-'' then
            (case takeDigits 6 0 cs of
               None \<Rightarrow> None
             | Some (y, rest) \<Rightarrow> if y = 0 then None else Some (- y, rest))
          else takeDigits 4 0 str)"

definition parseISO :: "string \<Rightarrow> int option" where
  "parseISO str =
     do {
       (y, r1) \<leftarrow> yearPart str;
       r2 \<leftarrow> expect CHR ''-'' r1;
       (mo, r3) \<leftarrow> takeDigits 2 0 r2;
       r4 \<leftarrow> expect CHR ''-'' r3;
       (d, r5) \<leftarrow> takeDigits 2 0 r4;
       r6 \<leftarrow> expect CHR ''T'' r5;
       (h, r7) \<leftarrow> takeDigits 2 0 r6;
       r8 \<leftarrow> expect CHR '':'' r7;
       (mi, r9) \<leftarrow> takeDigits 2 0 r8;
       r10 \<leftarrow> expect CHR '':'' r9;
       (sec, r11) \<leftarrow> takeDigits 2 0 r10;
       r12 \<leftarrow> expect CHR ''.'' r11;
       (milli, r13) \<leftarrow> takeDigits 3 0 r12;
       r14 \<leftarrow> expect CHR ''Z'' r13;
       if r14 = [] \<and> 1 \<le> mo \<and> mo \<le> 12 \<and> 1 \<le> d \<and> d \<le> DaysInMonth (mo - 1) (InLeapYear y) \<and>
          h \<le> 23 \<and> mi \<le> 59 \<and> sec \<le> 59
       then TimeClip (MakeDate (MakeDay y (mo - 1) d) (MakeTime h mi sec milli))
       else None
     }"

section \<open>Persistence\<close>

subsection \<open>JavaScript values\<close>

text \<open>
  What \<open>JSON.parse\<close> returns is untyped, so the persistence adapter is modelled on
  JavaScript values. An object is the list of its own properties, in their order. A
  \<open>Date\<close> object holds a time value, and \<open>None\<close> is the invalid date.
\<close>

datatype jsval =
    JUndefined
  | JNull
  | JBool bool
  | JNum number
  | JStr string
  | JDate "int option"
  | JArr "jsval list"
  | JObj "(string \<times> jsval) list"

text \<open>
  The objects the component builds: the object literals of \<open>addExpense\<close> and
  \<open>addTracker\<close> fix the order of the properties, and the updates by spread keep it.
\<close>

definition expenseVal :: "Expense \<Rightarrow> jsval" where
  "expenseVal e =
     JObj [(''id'', JNum (Num (of_int (eid e)))),
           (''title'', JStr (title e)),
           (''amount'', JNum (amount e))]"

definition trackerVal :: "ExpenseTracker \<Rightarrow> jsval" where
  "trackerVal t =
     JObj [(''id'', JNum (Num (of_int (tid t)))),
           (''name'', JStr (name t)),
           (''date'', JDate (Some (date t))),
           (''expenses'', JArr (map expenseVal (expenses t))),
           (''status'', JStr (status t)),
           (''expanded'', JBool (expanded t))]"

subsection \<open>Saving\<close>

text \<open>
  \<open>JSON.stringify\<close>, up to the text: the result is the JSON value that the text
  denotes, which is what \<open>JSON.parse\<close> reads back from it. A number that is not finite
  becomes \<open>null\<close>; a \<open>Date\<close> becomes its ISO string, or \<open>null\<close> when it is invalid;
  \<open>undefined\<close> becomes \<open>null\<close> in an array and drops the property in an object.
\<close>

fun inArray :: "jsval \<Rightarrow> jsval" where
  "inArray JUndefined = JNull"
| "inArray v = v"

primrec stringify :: "jsval \<Rightarrow> jsval" where
  "stringify JUndefined = JUndefined"
| "stringify JNull = JNull"
| "stringify (JBool b) = JBool b"
| "stringify (JNum n) = (if isFinite n then JNum n else JNull)"
| "stringify (JStr str) = JStr str"
| "stringify (JDate d) = (case d of None \<Rightarrow> JNull | Some t \<Rightarrow> JStr (toISOString t))"
| "stringify (JArr vs) = JArr (map inArray (map stringify vs))"
| "stringify (JObj ps) =
     JObj (filter (\<lambda>p. snd p \<noteq> JUndefined) (map (map_prod id stringify) ps))"

text \<open>
  The item stored under the key \<open>"trackers"\<close>: absent (\<open>getItem\<close> gives \<open>null\<close>; the
  empty string is as falsy), a text that is not JSON, or the text of a JSON value.
\<close>

datatype item = Missing | Unparsable | Json jsval

definition saveTrackers :: "ExpenseTracker list \<Rightarrow> item" where
  "saveTrackers ts = Json (stringify (JArr (map trackerVal ts)))"

subsection \<open>Loading\<close>

datatype error = SyntaxError | TypeError

text \<open>
  Reading a property of a value that is neither \<open>null\<close> nor \<open>undefined\<close>: an own
  property of an object, and \<open>undefined\<close> otherwise.
\<close>

fun lookupProp :: "string \<Rightarrow> (string \<times> jsval) list \<Rightarrow> jsval" where
  "lookupProp k [] = JUndefined"
| "lookupProp k ((k', v) # ps) = (if k' = k then v else lookupProp k ps)"

fun getProp :: "jsval \<Rightarrow> string \<Rightarrow> jsval" where
  "getProp (JObj ps) k = lookupProp k ps"
| "getProp v k = JUndefined"

text \<open>
  The properties an object spread copies: those of an object, the indexed elements of
  an array or of a string, none of any other value.
\<close>

fun digitsOf :: "nat \<Rightarrow> string" where
  "digitsOf n =
     (if n < 10 then [char_of (48 + n)] else digitsOf (n div 10) @ [char_of (48 + n mod 10)])"

fun spread :: "jsval \<Rightarrow> (string \<times> jsval) list" where
  "spread (JObj ps) = ps"
| "spread (JArr vs) = zip (map digitsOf [0 ..< length vs]) vs"
| "spread (JStr str) = zip (map digitsOf [0 ..< length str]) (map (\<lambda>c. JStr [c]) str)"
| "spread v = []"

text \<open>A property of an object literal: it replaces the property of that name, or is added last.\<close>

fun setProp :: "string \<Rightarrow> jsval \<Rightarrow> (string \<times> jsval) list \<Rightarrow> (string \<times> jsval) list" where
  "setProp k v [] = [(k, v)]"
| "setProp k v ((k', v') # ps) = (if k' = k then (k, v) # ps else (k', v') # setProp k v ps)"

text \<open>
  The \<open>Date\<close> constructor on one argument, giving the time value of the new object. A
  number is truncated and clipped, \<open>null\<close> and the Booleans count as numbers, and a
  string in the form that \<open>toISOString\<close> writes is read by \<open>parseISO\<close>. What the host
  makes of any other string, of an array or of an object is the parameter \<open>hostDate\<close>.
\<close>

definition timeClipNumber :: "number \<Rightarrow> int option" where
  "timeClipNumber n =
     (case n of Num r \<Rightarrow> TimeClip (if 0 \<le> r then \<lfloor>r\<rfloor> else \<lceil>r\<rceil>) | _ \<Rightarrow> None)"

definition newDate :: "(jsval \<Rightarrow> int option) \<Rightarrow> jsval \<Rightarrow> int option" where
  "newDate hostDate v =
     (case v of
        JUndefined \<Rightarrow> None
      | JNull \<Rightarrow> Some 0
      | JBool b \<Rightarrow> Some (if b then 1 else 0)
      | JNum n \<Rightarrow> timeClipNumber n
      | JStr str \<Rightarrow> (case parseISO str of Some t \<Rightarrow> Some t | None \<Rightarrow> hostDate v)
      | JDate d \<Rightarrow> d
      | JArr vs \<Rightarrow> hostDate v
      | JObj ps \<Rightarrow> hostDate v)"

text \<open>
  The function mapped over the parsed array. Reading \<open>tracker.date\<close> throws on \<open>null\<close>.
\<close>

definition rehydrate :: "(jsval \<Rightarrow> int option) \<Rightarrow> jsval \<Rightarrow> error + jsval" where
  "rehydrate hostDate tracker =
     (case tracker of
        JNull \<Rightarrow> Inl TypeError
      | JUndefined \<Rightarrow> Inl TypeError
      | _ \<Rightarrow> Inr (JObj (setProp ''date'' (JDate (newDate hostDate (getProp tracker ''date'')))
                          (spread tracker))))"

fun mapE :: "('a \<Rightarrow> error + 'b) \<Rightarrow> 'a list \<Rightarrow> error + 'b list" where
  "mapE f [] = Inr []"
| "mapE f (x # xs) =
     (case f x of
        Inl e \<Rightarrow> Inl e
      | Inr y \<Rightarrow> (case mapE f xs of Inl e \<Rightarrow> Inl e | Inr ys \<Rightarrow> Inr (y # ys)))"

text \<open>
  The comparator of the load: \<open>a.date.getTime()\<close> is the time value of the \<open>Date\<close> that
  \<open>rehydrate\<close> has put there, \<open>NaN\<close> for an invalid date, and the result is \<open>NaN\<close> when
  either is. Every comparison evaluates \<open>new Date()\<close> twice, once for each argument:
  \<open>clock n\<close> is the reading of the clock at its \<open>n\<close>-th evaluation, so the comparison of
  number \<open>k\<close> takes the readings \<open>2 * k\<close> and \<open>2 * k + 1\<close>.
\<close>

definition getTime :: "jsval \<Rightarrow> int option" where
  "getTime a = (case getProp a ''date'' of JDate d \<Rightarrow> d | _ \<Rightarrow> None)"

definition byProximity :: "(nat \<Rightarrow> int) \<Rightarrow> nat \<Rightarrow> jsval \<Rightarrow> jsval \<Rightarrow> int option" where
  "byProximity clock k a b =
     (case (getTime a, getTime b) of
        (Some x, Some y) \<Rightarrow> Some (\<bar>clock (2 * k) - x\<bar> - \<bar>clock (2 * k + 1) - y\<bar>)
      | _ \<Rightarrow> None)"

text \<open>
  \<open>loadTrackers\<close>: \<open>Inr None\<close> when nothing is stored and the state is left alone,
  \<open>Inr (Some vs)\<close> when \<open>setTrackers\<close> is called with \<open>vs\<close>, \<open>Inl\<close> when the effect
  throws (the text does not parse, the parsed value has no \<open>map\<close>, or an element is
  \<open>null\<close>).
\<close>

definition loadTrackers ::
  "(jsval \<Rightarrow> int option) \<Rightarrow> (nat \<Rightarrow> int) \<Rightarrow> item \<Rightarrow> error + jsval list option" where
  "loadTrackers hostDate clock storedTrackers =
     (case storedTrackers of
        Missing \<Rightarrow> Inr None
      | Unparsable \<Rightarrow> Inl SyntaxError
      | Json parsed \<Rightarrow>
          (case parsed of
             JArr vs \<Rightarrow>
               (case mapE (rehydrate hostDate) vs of
                  Inl e \<Rightarrow> Inl e
                | Inr parsedTrackers \<Rightarrow>
                    Inr (Some (fst (sortTimed (byProximity clock) 0 parsedTrackers))))
           | _ \<Rightarrow> Inl TypeError))"

subsection \<open>Sample data\<close>

text \<open>Concrete trackers and a concrete component state, used to run the definitions.\<close>

definition milk :: Expense where
  "milk = \<lparr> eid = 1700000001000, title = ''Milk'', amount = Num (21 / 2) \<rparr>"

definition bread :: Expense where
  "bread = \<lparr> eid = 1700000002000, title = ''Bread'', amount = Num 5 \<rparr>"

definition groceries :: ExpenseTracker where
  "groceries = \<lparr> tid = 1700000000000, name = ''Groceries'', date = 1700000000000,
                  expenses = [milk, bread], status = InProgress, expanded = True \<rparr>"

definition rent :: ExpenseTracker where
  "rent = \<lparr> tid = 1690000000000, name = ''Rent'', date = 1690000000000,
             expenses = [], status = Cleared, expanded = False \<rparr>"

definition sampleApp :: App where
  "sampleApp = \<lparr> trackers = [groceries, rent], trackerName = ''Travel'',
                  trackerDate = Some 1695000000000, showDatePicker = False,
                  expenseTitle = ''Eggs'', expenseAmount = ''abc'' \<rparr>"

definition travel :: ExpenseTracker where
  "travel = \<lparr> tid = 1700000005000, name = ''Travel'', date = 1695000000000,
               expenses = [], status = InProgress, expanded = False \<rparr>"

text \<open>Readings of \<open>Date.now()\<close>, one for each index of the tracker list.\<close>

definition readings :: "nat \<Rightarrow> int" where
  "readings k = 1700000009000 + int k"

text \<open>A clock that shows one more millisecond at every reading.\<close>

definition tickingClock :: "nat \<Rightarrow> int" where
  "tickingClock n = 1700000000005 + int n"

text \<open>A host that reads no date but those in the form of \<open>toISOString\<close>.\<close>

definition strictHost :: "jsval \<Rightarrow> int option" where
  "strictHost v = None"

text \<open>A tracker with an expense whose amount string did not parse.\<close>

definition eggs :: Expense where
  "eggs = \<lparr> eid = 1700000009000, title = ''Eggs'', amount = NaN \<rparr>"

definition market :: ExpenseTracker where
  "market = \<lparr> tid = 1700000000000, name = ''Market'', date = 1700000000000,
               expenses = [eggs], status = InProgress, expanded = True \<rparr>"

text \<open>A tracker whose partial sums are not all doubles.\<close>

definition ledger :: ExpenseTracker where
  "ledger = \<lparr> tid = 1700000000000, name = ''Ledger'', date = 1700000000000,
               expenses = [\<lparr> eid = 1, title = ''Deposit'', amount = Num 10000000000000000 \<rparr>,
                           \<lparr> eid = 2, title = ''Stamp'', amount = Num 1 \<rparr>,
                           \<lparr> eid = 3, title = ''Stamp'', amount = Num 1 \<rparr>],
               status = InProgress, expanded = False \<rparr>"

text \<open>Two trackers dated one millisecond apart.\<close>

definition monday :: ExpenseTracker where
  "monday = \<lparr> tid = 1, name = ''Monday'', date = 1700000000000,
               expenses = [], status = InProgress, expanded = False \<rparr>"

definition tuesday :: ExpenseTracker where
  "tuesday = \<lparr> tid = 2, name = ''Tuesday'', date = 1700000000001,
                expenses = [], status = InProgress, expanded = False \<rparr>"

section \<open>Properties\<close>

subsection \<open>Totals\<close>

lemma foldl_amounts:
  "foldl (\<lambda>sum expense. addNumber sum (amount expense)) a es = foldl addNumber a (map amount es)"
  by (induction es arbitrary: a) simp_all

text \<open>
  While every partial sum is a double, no addition rounds and the fold is the exact sum.
\<close>

lemma exact_fold:
  assumes "\<forall>k. 1 \<le> k \<and> k \<le> length rs \<longrightarrow>
             roundDouble (a + sum_list (take k rs)) = Num (a + sum_list (take k rs))"
  shows "foldl addNumber (Num a) (map Num rs) = Num (a + sum_list rs)"
  using assms
proof (induction rs arbitrary: a)
  case Nil
  show ?case by simp
next
  case (Cons r rs)
  have first: "roundDouble (a + r) = Num (a + r)"
    using Cons.prems [rule_format, of 1] by simp
  have later: "\<forall>k. 1 \<le> k \<and> k \<le> length rs \<longrightarrow>
      roundDouble (a + r + sum_list (take k rs)) = Num (a + r + sum_list (take k rs))"
  proof (intro allI impI)
    fix k
    assume "1 \<le> k \<and> k \<le> length rs"
    then have "roundDouble (a + sum_list (take (Suc k) (r # rs))) =
        Num (a + sum_list (take (Suc k) (r # rs)))"
      using Cons.prems [rule_format, of "Suc k"] by simp
    then show "roundDouble (a + r + sum_list (take k rs)) = Num (a + r + sum_list (take k rs))"
      by (simp add: add.assoc)
  qed
  have "foldl addNumber (Num a) (map Num (r # rs)) = foldl addNumber (Num (a + r)) (map Num rs)"
    by (simp add: first)
  also have "\<dots> = Num (a + r + sum_list rs)"
    using later by (rule Cons.IH)
  finally show ?case
    by (simp add: add.assoc)
qed

text \<open>
  C1, as amended. The total of a tracker is the sum of the amounts of its expenses taken
  from left to right in double arithmetic, starting from 0. It is the exact sum of the
  amounts whenever every partial sum is a double. The tracker record has no field for
  it: the total is a function of the expense list alone and follows every change of it.
\<close>

theorem getTotal_sum:
  "getTotal t = foldl addNumber (Num 0) (map amount (expenses t)) \<and>
   (\<forall>rs. map amount (expenses t) = map Num rs \<and>
         (\<forall>k \<le> length rs. roundDouble (sum_list (take k rs)) = Num (sum_list (take k rs)))
         \<longrightarrow> getTotal t = Num (sum_list rs)) \<and>
   getTotal (t\<lparr>expenses := es\<rparr>) = foldl addNumber (Num 0) (map amount es)"
proof -
  have fold: "getTotal u = foldl addNumber (Num 0) (map amount (expenses u))" for u
    by (simp add: getTotal_def foldl_amounts)
  have exact: "getTotal t = Num (sum_list rs)"
    if "map amount (expenses t) = map Num rs"
      and "\<forall>k \<le> length rs. roundDouble (sum_list (take k rs)) = Num (sum_list (take k rs))"
    for rs
  proof -
    have "foldl addNumber (Num 0) (map Num rs) = Num (0 + sum_list rs)"
      by (rule exact_fold) (simp add: that(2))
    then show ?thesis
      by (simp add: fold that(1))
  qed
  show ?thesis
    using fold exact by simp
qed

theorem getTotal_sum_witness:
  "map amount (expenses groceries) = map Num [21 / 2, 5] \<and>
   roundDouble 0 = Num 0 \<and> roundDouble (21 / 2) = Num (21 / 2) \<and>
   roundDouble (21 / 2 + 5) = Num (21 / 2 + 5) \<and>
   getTotal groceries = Num (31 / 2)"
proof -
  have amounts: "map amount (expenses groceries) = map Num [21 / 2, 5]"
    by (simp add: groceries_def milk_def bread_def)
  have r0: "roundDouble 0 = Num 0"
    by (simp add: roundDouble_def)
  have r1: "roundDouble (21 / 2) = Num (21 / 2)"
    by code_simp
  have r2: "roundDouble (21 / 2 + 5) = Num (21 / 2 + 5)"
    by code_simp
  have sums: "\<forall>k \<le> length [21 / 2, 5 :: rat].
      roundDouble (sum_list (take k [21 / 2, 5])) = Num (sum_list (take k [21 / 2, 5]))"
  proof (intro allI impI)
    fix k :: nat
    assume "k \<le> length [21 / 2, 5 :: rat]"
    then have "k = 0 \<or> k = 1 \<or> k = 2"
      by auto
    then show "roundDouble (sum_list (take k [21 / 2, 5])) = Num (sum_list (take k [21 / 2, 5]))"
      using r0 r1 r2 by auto
  qed
  from getTotal_sum [of groceries] amounts sums
  have "getTotal groceries = Num (sum_list [21 / 2, 5])"
    by blast
  then show ?thesis
    using amounts r0 r1 r2 by simp
qed

text \<open>
  C1 as stated fails where an addition rounds: for amounts of \<open>10 ^ 16\<close>, 1 and 1 the
  total is \<open>10 ^ 16\<close>, while the sum of the amounts is the double \<open>10 ^ 16 + 2\<close>.
\<close>

theorem getTotal_rounding_counterexample:
  "map amount (expenses ledger) = map Num [10000000000000000, 1, 1] \<and>
   getTotal ledger = Num 10000000000000000 \<and>
   sum_list [10000000000000000, 1, 1] = (10000000000000002 :: rat) \<and>
   roundDouble 10000000000000002 = Num 10000000000000002 \<and>
   getTotal ledger \<noteq> Num (sum_list [10000000000000000, 1, 1])"
proof -
  have amounts: "map amount (expenses ledger) = map Num [10000000000000000, 1, 1]"
    by (simp add: ledger_def)
  have step: "roundDouble 10000000000000001 = Num 10000000000000000"
    by code_simp
  have start: "roundDouble 10000000000000000 = Num 10000000000000000"
    by code_simp
  have total: "getTotal ledger = Num 10000000000000000"
    by (simp add: getTotal_def ledger_def start step)
  have double: "roundDouble 10000000000000002 = Num 10000000000000002"
    by code_simp
  show ?thesis
    using amounts total double by simp
qed

subsection \<open>The sort\<close>

lemma mset_insertJS: "mset (insertJS cmp x xs) = add_mset x (mset xs)"
  by (induction xs) simp_all

lemma mset_sortJS: "mset (sortJS cmp xs) = mset xs"
  by (induction xs) (simp_all add: sortJS_def mset_insertJS)

lemma set_sortJS: "set (sortJS cmp xs) = set xs"
  using mset_sortJS [of cmp xs] by (metis set_mset_mset)

lemma length_sortJS: "length (sortJS cmp xs) = length xs"
  using mset_sortJS [of cmp xs] by (metis size_mset)

lemma set_insertJS: "set (insertJS cmp x xs) = insert x (set xs)"
  using mset_insertJS [of cmp x xs] by (metis set_mset_mset set_mset_add_mset_insert)

text \<open>
  Where the comparator agrees with an integer key on the elements at hand, inserting
  keeps a list ordered by that key, and sorting orders it.
\<close>

lemma sorted_insertJS:
  fixes key :: "'a \<Rightarrow> int"
  assumes agree: "\<And>a b. a \<in> insert x (set xs) \<Longrightarrow> b \<in> insert x (set xs) \<Longrightarrow>
                    (sortCompare cmp a b \<le> 0) = (key a \<le> key b)"
    and ordered: "sorted_wrt (\<lambda>a b. key a \<le> key b) xs"
  shows "sorted_wrt (\<lambda>a b. key a \<le> key b) (insertJS cmp x xs)"
  using assms
proof (induction xs)
  case Nil
  then show ?case by simp
next
  case (Cons y ys)
  show ?case
  proof (cases "sortCompare cmp x y \<le> 0")
    case True
    then have "key x \<le> key y"
      using Cons.prems(1) [of x y] by simp
    moreover have "\<forall>z \<in> set ys. key y \<le> key z"
      using Cons.prems(2) by simp
    ultimately have "\<forall>z \<in> set (y # ys). key x \<le> key z"
      by fastforce
    with True Cons.prems(2) show ?thesis by simp
  next
    case False
    then have "\<not> key x \<le> key y"
      using Cons.prems(1) [of x y] by simp
    then have yx: "key y \<le> key x" by simp
    have rest: "sorted_wrt (\<lambda>a b. key a \<le> key b) (insertJS cmp x ys)"
    proof (rule Cons.IH)
      fix a b
      assume "a \<in> insert x (set ys)" "b \<in> insert x (set ys)"
      then show "(sortCompare cmp a b \<le> 0) = (key a \<le> key b)"
        using Cons.prems(1) [of a b] by auto
    next
      show "sorted_wrt (\<lambda>a b. key a \<le> key b) ys"
        using Cons.prems(2) by simp
    qed
    have "\<forall>z \<in> set (insertJS cmp x ys). key y \<le> key z"
      using yx Cons.prems(2) by (simp add: set_insertJS)
    with False rest show ?thesis by simp
  qed
qed

lemma sorted_sortJS:
  fixes key :: "'a \<Rightarrow> int"
  assumes agree: "\<And>a b. a \<in> set xs \<Longrightarrow> b \<in> set xs \<Longrightarrow>
                    (sortCompare cmp a b \<le> 0) = (key a \<le> key b)"
  shows "sorted_wrt (\<lambda>a b. key a \<le> key b) (sortJS cmp xs)"
  using assms
proof (induction xs)
  case Nil
  then show ?case by (simp add: sortJS_def)
next
  case (Cons x xs)
  have tail: "sorted_wrt (\<lambda>a b. key a \<le> key b) (sortJS cmp xs)"
    using Cons by simp
  have "sorted_wrt (\<lambda>a b. key a \<le> key b) (insertJS cmp x (sortJS cmp xs))"
  proof (rule sorted_insertJS [OF _ tail])
    fix a b
    assume "a \<in> insert x (set (sortJS cmp xs))" "b \<in> insert x (set (sortJS cmp xs))"
    then show "(sortCompare cmp a b \<le> 0) = (key a \<le> key b)"
      using Cons.prems [of a b] by (simp add: set_sortJS)
  qed
  then show ?case by (simp add: sortJS_def)
qed

lemma byDate_agrees: "(sortCompare byDate a b \<le> 0) = (date a \<le> date b)"
  by (simp add: sortCompare_def byDate_def)

lemma status_literals_differ: "InProgress \<noteq> Cleared"
  by (simp add: InProgress_def Cleared_def)

subsection \<open>Adding and deleting trackers\<close>

text \<open>
  C2. With a non-empty name in the form, \<open>addTracker\<close> adds exactly one tracker to the
  list: the new one, carrying the chosen date, or the clock's reading when no date is
  set. The list has one more entry and is in ascending order of date afterwards.
\<close>

theorem addTracker_appends_sorted:
  assumes "trackerName s \<noteq> []"
  shows "mset (trackers (addTracker idNow dateNow resetNow s)) =
           add_mset \<lparr> tid = idNow, name = trackerName s,
                      date = (case trackerDate s of Some d \<Rightarrow> d | None \<Rightarrow> dateNow),
                      expenses = [], status = InProgress, expanded = False \<rparr>
                    (mset (trackers s)) \<and>
         length (trackers (addTracker idNow dateNow resetNow s)) = Suc (length (trackers s)) \<and>
         sorted_wrt (\<lambda>a b. date a \<le> date b) (trackers (addTracker idNow dateNow resetNow s))"
proof -
  let ?new = "\<lparr> tid = idNow, name = trackerName s,
                date = (case trackerDate s of Some d \<Rightarrow> d | None \<Rightarrow> dateNow),
                expenses = [], status = InProgress, expanded = False \<rparr>"
  have result: "trackers (addTracker idNow dateNow resetNow s) =
                  sortJS byDate (trackers s @ [?new])"
    using assms by (simp add: addTracker_def)
  have "sorted_wrt (\<lambda>a b. date a \<le> date b) (sortJS byDate (trackers s @ [?new]))"
    by (rule sorted_sortJS) (rule byDate_agrees)
  then show ?thesis
    unfolding result by (simp add: mset_sortJS length_sortJS)
qed

theorem addTracker_appends_sorted_witness:
  "trackerName sampleApp \<noteq> [] \<and>
   trackers (addTracker 1700000005000 1700000006000 1700000007000 sampleApp) =
     [rent, travel, groceries] \<and>
   length (trackers (addTracker 1700000005000 1700000006000 1700000007000 sampleApp)) =
     Suc (length (trackers sampleApp)) \<and>
   sorted_wrt (\<lambda>a b. date a \<le> date b)
     (trackers (addTracker 1700000005000 1700000006000 1700000007000 sampleApp))"
proof -
  have named: "trackerName sampleApp \<noteq> []"
    by (simp add: sampleApp_def)
  have run: "trackers (addTracker 1700000005000 1700000006000 1700000007000 sampleApp) =
               [rent, travel, groceries]"
    by (simp add: addTracker_def sampleApp_def sortJS_def sortCompare_def byDate_def
        groceries_def rent_def travel_def)
  from addTracker_appends_sorted [OF named, of 1700000005000 1700000006000 1700000007000]
  show ?thesis
    using named run by blast
qed

text \<open>
  C4. \<open>deleteTracker\<close> changes the tracker list alone, in one update. No tracker with the
  given identifier is left; its expenses go with it, since they live inside the tracker
  record. Where exactly one tracker has the identifier, the new list is the old one
  without that entry; in general the trackers with another identifier are kept as they
  were, in their order. When no tracker has the identifier, the state is unchanged.
\<close>

theorem deleteTracker_removes:
  "deleteTracker i s = s\<lparr> trackers := trackers (deleteTracker i s) \<rparr> \<and>
   (\<forall>t \<in> set (trackers (deleteTracker i s)). tid t \<noteq> i) \<and>
   (\<forall>pre t post.
      trackers s = pre @ t # post \<and> tid t = i \<and> i \<notin> tid ` set pre \<and> i \<notin> tid ` set post
      \<longrightarrow> trackers (deleteTracker i s) = pre @ post) \<and>
   filter (\<lambda>t. tid t \<noteq> i) (trackers (deleteTracker i s)) =
     filter (\<lambda>t. tid t \<noteq> i) (trackers s) \<and>
   (i \<notin> tid ` set (trackers s) \<longrightarrow> deleteTracker i s = s)"
proof -
  have keep: "filter (\<lambda>t. tid t \<noteq> i) xs = xs" if "i \<notin> tid ` set xs" for xs
    using that by (induction xs) auto
  have split: "trackers (deleteTracker i s) = pre @ post"
    if "trackers s = pre @ t # post" "tid t = i" "i \<notin> tid ` set pre" "i \<notin> tid ` set post"
    for pre t post
    using that by (simp add: deleteTracker_def keep)
  have absent: "deleteTracker i s = s" if "i \<notin> tid ` set (trackers s)"
    using that by (simp add: deleteTracker_def keep)
  show ?thesis
    using split absent by (auto simp add: deleteTracker_def)
qed

theorem deleteTracker_removes_witness:
  "trackers (deleteTracker 1700000000000 sampleApp) = [rent] \<and>
   deleteTracker 42 sampleApp = sampleApp"
proof -
  have present: "trackers sampleApp = [] @ groceries # [rent] \<and> tid groceries = 1700000000000 \<and>
      1700000000000 \<notin> tid ` set [] \<and> 1700000000000 \<notin> tid ` set [rent]"
    by (simp add: sampleApp_def groceries_def rent_def)
  have absent: "42 \<notin> tid ` set (trackers sampleApp)"
    by (simp add: sampleApp_def groceries_def rent_def)
  from deleteTracker_removes [of 1700000000000 sampleApp] present
  have "trackers (deleteTracker 1700000000000 sampleApp) = [] @ [rent]"
    by blast
  moreover from deleteTracker_removes [of 42 sampleApp] absent
  have "deleteTracker 42 sampleApp = sampleApp"
    by blast
  ultimately show ?thesis by simp
qed

subsection \<open>Adding expenses\<close>

lemma addExpense_nth:
  assumes "ttl \<noteq> []" and "amt \<noteq> []" and "k < length (trackers s)"
  shows "trackers (addExpense parseFloat now i ttl amt s) ! k =
           (if tid (trackers s ! k) = i
            then (trackers s ! k)\<lparr> expenses := expenses (trackers s ! k) @
                   [\<lparr> eid = now k, title = ttl, amount = parseFloat amt \<rparr>] \<rparr>
            else trackers s ! k)"
  using assms by (simp add: addExpense_def nth_enumerate_eq)

text \<open>
  C5, as amended. With a non-empty title and a non-empty amount string, \<open>addExpense\<close>
  keeps the length of the tracker list, gives every tracker that has the identifier
  one more expense at the end of its list (the given title, and as amount whatever
  \<open>parseFloat\<close> returns for the string, stored as it is), and leaves every other
  tracker as it was. \<open>parseFloat\<close> returns the number that the string starts with, after
  white space, whatever follows that number, and \<open>NaN\<close> when the string starts with no
  number.
\<close>

theorem addExpense_appends:
  assumes "ttl \<noteq> []" and "amt \<noteq> []"
  shows "length (trackers (addExpense parseFloatES now i ttl amt s)) = length (trackers s) \<and>
         (\<forall>k < length (trackers s).
            (tid (trackers s ! k) = i \<longrightarrow>
               trackers (addExpense parseFloatES now i ttl amt s) ! k =
                 (trackers s ! k)\<lparr> expenses := expenses (trackers s ! k) @
                    [\<lparr> eid = now k, title = ttl, amount = parseFloatES amt \<rparr>] \<rparr>) \<and>
            (tid (trackers s ! k) \<noteq> i \<longrightarrow>
               trackers (addExpense parseFloatES now i ttl amt s) ! k = trackers s ! k)) \<and>
         (numberPrefix (trimStart amt) = None \<longrightarrow> parseFloatES amt = NaN) \<and>
         (\<forall>n rest. numberPrefix (trimStart amt) = Some (n, rest) \<longrightarrow> parseFloatES amt = n)"
proof -
  have "length (trackers (addExpense parseFloatES now i ttl amt s)) = length (trackers s)"
    using assms by (simp add: addExpense_def)
  moreover have "\<forall>k < length (trackers s).
            (tid (trackers s ! k) = i \<longrightarrow>
               trackers (addExpense parseFloatES now i ttl amt s) ! k =
                 (trackers s ! k)\<lparr> expenses := expenses (trackers s ! k) @
                    [\<lparr> eid = now k, title = ttl, amount = parseFloatES amt \<rparr>] \<rparr>) \<and>
            (tid (trackers s ! k) \<noteq> i \<longrightarrow>
               trackers (addExpense parseFloatES now i ttl amt s) ! k = trackers s ! k)"
    using assms by (simp add: addExpense_nth)
  moreover have "numberPrefix (trimStart amt) = None \<longrightarrow> parseFloatES amt = NaN"
    by (simp add: parseFloatES_def)
  moreover have "\<forall>n rest. numberPrefix (trimStart amt) = Some (n, rest) \<longrightarrow> parseFloatES amt = n"
    by (simp add: parseFloatES_def)
  ultimately show ?thesis
    by blast
qed

theorem addExpense_appends_witness:
  "''Eggs'' \<noteq> [] \<and> ''abc'' \<noteq> [] \<and> numberPrefix (trimStart ''abc'') = None \<and>
   parseFloatES ''abc'' = NaN \<and>
   tid (trackers sampleApp ! 0) = 1700000000000 \<and>
   tid (trackers sampleApp ! 1) \<noteq> 1700000000000 \<and>
   trackers (addExpense parseFloatES readings 1700000000000 ''Eggs'' ''abc'' sampleApp) ! 0 =
     groceries\<lparr> expenses :=
       [milk, bread, \<lparr> eid = 1700000009000, title = ''Eggs'', amount = NaN \<rparr>] \<rparr> \<and>
   trackers (addExpense parseFloatES readings 1700000000000 ''Eggs'' ''abc'' sampleApp) ! 1 =
     rent"
proof -
  have shape: "length (trackers sampleApp) = 2 \<and> trackers sampleApp ! 0 = groceries \<and>
      trackers sampleApp ! 1 = rent"
    by (simp add: sampleApp_def)
  have ids: "tid groceries = 1700000000000 \<and> tid rent \<noteq> 1700000000000 \<and>
      expenses groceries = [milk, bread]"
    by (simp add: groceries_def rent_def)
  have none: "numberPrefix (trimStart ''abc'') = None"
    by code_simp
  have reading: "readings 0 = 1700000009000"
    by (simp add: readings_def)
  have filled: "''Eggs'' \<noteq> []" "''abc'' \<noteq> []"
    by simp_all
  note run = addExpense_appends [OF filled, of readings 1700000000000 sampleApp]
  have nan: "parseFloatES ''abc'' = NaN"
    using run none by blast
  have first: "trackers (addExpense parseFloatES readings 1700000000000
        ''Eggs'' ''abc'' sampleApp) ! 0 =
      groceries\<lparr> expenses :=
        [milk, bread, \<lparr> eid = 1700000009000, title = ''Eggs'', amount = NaN \<rparr>] \<rparr>"
    using run shape ids nan reading by simp
  have second: "trackers (addExpense parseFloatES readings 1700000000000
        ''Eggs'' ''abc'' sampleApp) ! 1 = rent"
    using run shape ids by simp
  show ?thesis
    using first second shape ids nan none by simp
qed

text \<open>
  C5 as stated fails on an amount string that is not a number but starts with one: of
  \<open>-7.5kg\<close> the prefix \<open>-7.5\<close> is read and \<open>kg\<close> is ignored, so the number -7.5 is
  stored, not \<open>NaN\<close>.
\<close>

theorem addExpense_prefix_counterexample:
  "numberPrefix (trimStart ''-7.5kg'') = Some (Num (- 15 / 2), ''kg'') \<and>
   parseFloatES ''-7.5kg'' = Num (- 15 / 2) \<and>
   parseFloatES ''-7.5kg'' \<noteq> NaN \<and>
   trackers (addExpense parseFloatES readings 1700000000000 ''Eggs'' ''-7.5kg'' sampleApp) ! 0 =
     groceries\<lparr> expenses :=
       [milk, bread, \<lparr> eid = 1700000009000, title = ''Eggs'', amount = Num (- 15 / 2) \<rparr>] \<rparr>"
proof -
  have prefix: "numberPrefix (trimStart ''-7.5kg'') = Some (Num (- 15 / 2), ''kg'')"
    by code_simp
  then have parsed: "parseFloatES ''-7.5kg'' = Num (- 15 / 2)"
    by (simp add: parseFloatES_def)
  have "trackers (addExpense parseFloatES readings 1700000000000 ''Eggs'' ''-7.5kg'' sampleApp) ! 0 =
      groceries\<lparr> expenses := expenses groceries @
        [\<lparr> eid = readings 0, title = ''Eggs'', amount = parseFloatES ''-7.5kg'' \<rparr>] \<rparr>"
    by (simp add: addExpense_nth sampleApp_def groceries_def)
  then have stored: "trackers (addExpense parseFloatES readings 1700000000000 ''Eggs'' ''-7.5kg''
        sampleApp) ! 0 =
      groceries\<lparr> expenses :=
        [milk, bread, \<lparr> eid = 1700000009000, title = ''Eggs'', amount = Num (- 15 / 2) \<rparr>] \<rparr>"
    unfolding parsed by (simp add: readings_def groceries_def)
  show ?thesis
    using prefix parsed stored by simp
qed

text \<open>
  C6. No operation has an error result: each is a total function from states to states.
  \<open>addTracker\<close> with an empty name returns the state it was given, and so does
  \<open>addExpense\<close> with an empty title or an empty amount string.
\<close>

theorem invalid_input_noop:
  "(trackerName s = [] \<longrightarrow> addTracker idNow dateNow resetNow s = s) \<and>
   (ttl = [] \<or> amt = [] \<longrightarrow> addExpense parseFloat now i ttl amt s = s)"
  by (simp add: addTracker_def addExpense_def)

theorem invalid_input_noop_witness:
  "trackerName (sampleApp\<lparr> trackerName := [] \<rparr>) = [] \<and>
   addTracker 1700000005000 1700000006000 1700000007000 (sampleApp\<lparr> trackerName := [] \<rparr>) =
     sampleApp\<lparr> trackerName := [] \<rparr> \<and>
   addExpense parseFloatES readings 1700000000000 [] ''3.25'' sampleApp = sampleApp \<and>
   addExpense parseFloatES readings 1700000000000 ''Eggs'' [] sampleApp = sampleApp"
proof -
  have unnamed: "trackerName (sampleApp\<lparr> trackerName := [] \<rparr>) = []"
    by simp
  from invalid_input_noop [where s = "sampleApp\<lparr> trackerName := [] \<rparr>"
      and idNow = 1700000005000 and dateNow = 1700000006000 and resetNow = 1700000007000]
  have tracker: "addTracker 1700000005000 1700000006000 1700000007000
      (sampleApp\<lparr> trackerName := [] \<rparr>) = sampleApp\<lparr> trackerName := [] \<rparr>"
    using unnamed by blast
  from invalid_input_noop [where s = sampleApp and ttl = "[]" and amt = "''3.25''"
      and parseFloat = parseFloatES and now = readings and i = 1700000000000]
  have no_title: "addExpense parseFloatES readings 1700000000000 [] ''3.25''
      sampleApp = sampleApp"
    by blast
  from invalid_input_noop [where s = sampleApp and ttl = "''Eggs''" and amt = "[]"
      and parseFloat = parseFloatES and now = readings and i = 1700000000000]
  have no_amount: "addExpense parseFloatES readings 1700000000000 ''Eggs'' []
      sampleApp = sampleApp"
    by blast
  show ?thesis
    using unnamed tracker no_title no_amount by blast
qed

subsection \<open>Status\<close>

lemma toggle_back:
  assumes "validStatus (status t)"
  shows "(if (if status t = InProgress then Cleared else InProgress) = InProgress
          then Cleared else InProgress) = status t"
  using assms status_literals_differ by (auto simp add: validStatus_def)

text \<open>
  C7. On a tracker list whose statuses are the two literals, toggling the status of an
  identifier twice gives the state back; and one toggle does change the state when a
  tracker has the identifier, so the status flips between the two values.
\<close>

theorem toggleStatus_twice:
  assumes "statusInv (trackers s)"
  shows "toggleStatus i (toggleStatus i s) = s \<and>
         (i \<in> tid ` set (trackers s) \<longrightarrow> toggleStatus i s \<noteq> s)"
proof -
  let ?flip = "\<lambda>tracker. if tid tracker = i
                 then tracker\<lparr> status :=
                        (if status tracker = InProgress then Cleared else InProgress) \<rparr>
                 else tracker"
  have once: "trackers (toggleStatus i u) = map ?flip (trackers u)" for u
    by (simp add: toggleStatus_def)
  have rest: "toggleStatus i u = u\<lparr> trackers := trackers (toggleStatus i u) \<rparr>" for u
    by (simp add: toggleStatus_def)
  have flip_flip: "?flip (?flip t) = t" if "validStatus (status t)" for t
  proof (cases "tid t = i")
    case True
    then show ?thesis
      using toggle_back [OF that] by simp
  next
    case False
    then show ?thesis by simp
  qed
  have again: "map ?flip (map ?flip ts) = ts"
    if "list_all (\<lambda>t. validStatus (status t)) ts" for ts
    using that
  proof (induction ts)
    case Nil
    then show ?case by simp
  next
    case (Cons t ts)
    then have "?flip (?flip t) = t" and "map ?flip (map ?flip ts) = ts"
      using flip_flip [of t] by simp_all
    then show ?case
      by (simp only: list.map)
  qed
  have "trackers (toggleStatus i (toggleStatus i s)) = trackers s"
    using again [of "trackers s"] assms
    by (simp only: once statusInv_def)
  moreover have "toggleStatus i (toggleStatus i s) =
      s\<lparr> trackers := trackers (toggleStatus i (toggleStatus i s)) \<rparr>"
    by (simp add: toggleStatus_def)
  ultimately have twice: "toggleStatus i (toggleStatus i s) = s"
    by simp
  have moved: "toggleStatus i s \<noteq> s" if "i \<in> tid ` set (trackers s)"
  proof
    assume same: "toggleStatus i s = s"
    from that obtain t where t: "t \<in> set (trackers s)" "tid t = i"
      by auto
    from same have "map ?flip (trackers s) = trackers s"
      using once [of s] by simp
    then have "map ?flip (trackers s) = map (\<lambda>x. x) (trackers s)"
      by simp
    then have "\<forall>x \<in> set (trackers s). ?flip x = x"
      by (simp only: map_eq_conv)
    then have "?flip t = t"
      using t(1) by blast
    then have "status (?flip t) = status t"
      by simp
    then have "(if status t = InProgress then Cleared else InProgress) = status t"
      using t(2) by simp
    then show False
      using status_literals_differ by (simp split: if_splits)
  qed
  show ?thesis
    using twice moved by blast
qed

theorem toggleStatus_twice_witness:
  "statusInv (trackers sampleApp) \<and>
   toggleStatus 1700000000000 (toggleStatus 1700000000000 sampleApp) = sampleApp \<and>
   toggleStatus 1700000000000 sampleApp \<noteq> sampleApp \<and>
   map status (trackers (toggleStatus 1700000000000 sampleApp)) = [Cleared, Cleared] \<and>
   map status (trackers sampleApp) = [InProgress, Cleared]"
proof -
  have inv: "statusInv (trackers sampleApp)"
    by (simp add: statusInv_def validStatus_def sampleApp_def groceries_def rent_def)
  have present: "1700000000000 \<in> tid ` set (trackers sampleApp)"
    by (simp add: sampleApp_def groceries_def)
  have run: "map status (trackers (toggleStatus 1700000000000 sampleApp)) = [Cleared, Cleared]"
    "map status (trackers sampleApp) = [InProgress, Cleared]"
    by (simp_all add: toggleStatus_def sampleApp_def groceries_def rent_def)
  from toggleStatus_twice [OF inv, of 1700000000000] present run inv
  show ?thesis
    by blast
qed

subsection \<open>Invariant and frame\<close>

lemma statusInv_iff: "statusInv ts = (\<forall>t \<in> set ts. validStatus (status t))"
  by (simp add: statusInv_def list_all_iff)

lemma enumerated_member: "(k, t) \<in> set (enumerate 0 ts) \<Longrightarrow> t \<in> set ts"
  by (auto simp add: in_set_enumerate_eq)

text \<open>
  C9. Every operation on the tracker list keeps each tracker's status one of the two
  literals: a new tracker starts in progress, a toggle moves between the two, and the
  other operations do not touch a status.
\<close>

theorem operations_preserve_status:
  assumes "statusInv (trackers s)"
  shows "statusInv (trackers (addTracker idNow dateNow resetNow s)) \<and>
         statusInv (trackers (deleteTracker i s)) \<and>
         statusInv (trackers (addExpense parseFloat now i ttl amt s)) \<and>
         statusInv (trackers (deleteExpense i e s)) \<and>
         statusInv (trackers (toggleStatus i s)) \<and>
         statusInv (trackers (toggleExpand i s))"
proof -
  have valid: "\<forall>t \<in> set (trackers s). validStatus (status t)"
    using assms by (simp add: statusInv_iff)
  have add_tracker: "statusInv (trackers (addTracker idNow dateNow resetNow s))"
    using valid by (simp add: addTracker_def statusInv_iff set_sortJS validStatus_def)
  have delete_tracker: "statusInv (trackers (deleteTracker i s))"
    using valid by (simp add: deleteTracker_def statusInv_iff)
  have add_expense: "statusInv (trackers (addExpense parseFloat now i ttl amt s))"
    using valid by (auto simp add: addExpense_def statusInv_iff dest: enumerated_member)
  have delete_expense: "statusInv (trackers (deleteExpense i e s))"
    using valid by (auto simp add: deleteExpense_def statusInv_iff)
  have toggle_status: "statusInv (trackers (toggleStatus i s))"
    using valid by (auto simp add: toggleStatus_def statusInv_iff validStatus_def)
  have toggle_expand: "statusInv (trackers (toggleExpand i s))"
    using valid by (auto simp add: toggleExpand_def statusInv_iff)
  show ?thesis
    using add_tracker delete_tracker add_expense delete_expense toggle_status toggle_expand
    by blast
qed

theorem operations_preserve_status_witness:
  "statusInv (trackers sampleApp) \<and>
   statusInv (trackers (addTracker 1700000005000 1700000006000 1700000007000 sampleApp)) \<and>
   statusInv (trackers (deleteTracker 1700000000000 sampleApp)) \<and>
   statusInv (trackers (addExpense parseFloatES readings 1700000000000
      ''Eggs'' ''abc'' sampleApp)) \<and>
   statusInv (trackers (deleteExpense 1700000000000 1700000001000 sampleApp)) \<and>
   statusInv (trackers (toggleStatus 1700000000000 sampleApp)) \<and>
   statusInv (trackers (toggleExpand 1700000000000 sampleApp))"
proof -
  have inv: "statusInv (trackers sampleApp)"
    by (simp add: statusInv_def validStatus_def sampleApp_def groceries_def rent_def)
  from operations_preserve_status [OF inv] inv
  show ?thesis
    by blast
qed

text \<open>
  C10. When no tracker has the identifier, \<open>addExpense\<close> leaves the tracker list as it
  was (with a title and an amount it still clears the two form fields), and
  \<open>deleteExpense\<close>, \<open>toggleStatus\<close> and \<open>toggleExpand\<close> return the state unchanged.
\<close>

theorem absent_id_noop:
  assumes "i \<notin> tid ` set (trackers s)"
  shows "trackers (addExpense parseFloat now i ttl amt s) = trackers s \<and>
         deleteExpense i e s = s \<and>
         toggleStatus i s = s \<and>
         toggleExpand i s = s"
proof -
  have same: "map (\<lambda>tracker. if tid tracker = i then f tracker else tracker) (trackers s) =
      trackers s" for f
    using assms by (intro map_idI) auto
  have "map (\<lambda>(k, tracker). if tid tracker = i then g k tracker else tracker)
      (enumerate 0 (trackers s)) = map snd (enumerate 0 (trackers s))" for g
  proof (rule map_cong [OF refl])
    fix p
    assume member: "p \<in> set (enumerate 0 (trackers s))"
    obtain k t where p: "p = (k, t)"
      by (cases p)
    with member have "t \<in> set (trackers s)"
      by (auto dest: enumerated_member)
    with assms have "tid t \<noteq> i"
      by auto
    with p show "(case p of (k, tracker) \<Rightarrow>
        if tid tracker = i then g k tracker else tracker) = snd p"
      by simp
  qed
  then have indexed: "map (\<lambda>(k, tracker). if tid tracker = i then g k tracker else tracker)
      (enumerate 0 (trackers s)) = trackers s" for g
    by simp
  have "trackers (addExpense parseFloat now i ttl amt s) = trackers s"
    by (simp add: addExpense_def indexed)
  moreover have "deleteExpense i e s = s"
    by (simp add: deleteExpense_def same)
  moreover have "toggleStatus i s = s"
    by (simp add: toggleStatus_def same)
  moreover have "toggleExpand i s = s"
    by (simp add: toggleExpand_def same)
  ultimately show ?thesis
    by blast
qed

theorem absent_id_noop_witness:
  "42 \<notin> tid ` set (trackers sampleApp) \<and>
   trackers (addExpense parseFloatES readings 42 ''Eggs'' ''abc'' sampleApp) =
     [groceries, rent] \<and>
   deleteExpense 42 1700000001000 sampleApp = sampleApp \<and>
   toggleStatus 42 sampleApp = sampleApp \<and>
   toggleExpand 42 sampleApp = sampleApp"
proof -
  have absent: "42 \<notin> tid ` set (trackers sampleApp)"
    by (simp add: sampleApp_def groceries_def rent_def)
  have before: "trackers sampleApp = [groceries, rent]"
    by (simp add: sampleApp_def)
  from absent_id_noop [OF absent] absent before
  show ?thesis
    by metis
qed

section \<open>Properties of the host functions\<close>

subsection \<open>The year of a day\<close>

lemma yearDown_le: "DayFromYear (yearDown day y) \<le> day"
proof (induction day y rule: yearDown.induct)
  case (1 day y)
  then show ?case
    by (subst yearDown.simps) simp
qed

lemma yearUp_bounds:
  "DayFromYear y \<le> day \<Longrightarrow>
   DayFromYear (yearUp day y) \<le> day \<and> day < DayFromYear (yearUp day y + 1)"
proof (induction day y rule: yearUp.induct)
  case (1 day y)
  show ?case
  proof (cases "DayFromYear (y + 1) \<le> day")
    case True
    with 1 show ?thesis
      by (subst (1 2) yearUp.simps) simp
  next
    case False
    with 1 show ?thesis
      by (subst (1 2) yearUp.simps) simp
  qed
qed

text \<open>The year found starts on or before the day, and the next year starts after it.\<close>

lemma YearFromDay_bounds:
  "DayFromYear (YearFromDay day) \<le> day \<and> day < DayFromYear (YearFromDay day + 1)"
  unfolding YearFromDay_def by (rule yearUp_bounds) (rule yearDown_le)

lemma DayFromYear_mono: "y \<le> z \<Longrightarrow> DayFromYear y \<le> DayFromYear z"
proof (induction z rule: int_ge_induct)
  case base
  show ?case by simp
next
  case (step z)
  then show ?case
    using DaysInYear_cases [of z] by (auto simp add: DayFromYear_Suc)
qed

lemma YearFromDay_range:
  assumes "- 100000000 \<le> day" and "day \<le> 100000000"
  shows "- 999999 \<le> YearFromDay day \<and> YearFromDay day \<le> 999999"
proof -
  let ?y = "YearFromDay day"
  have hi: "?y \<le> 999999"
  proof (rule ccontr)
    assume "\<not> ?y \<le> 999999"
    then have "DayFromYear 1000000 \<le> DayFromYear ?y"
      by (intro DayFromYear_mono) simp
    moreover have "DayFromYear 1000000 > 100000000"
      by (simp add: DayFromYear_def)
    ultimately show False
      using YearFromDay_bounds [of day] assms by linarith
  qed
  have lo: "- 999999 \<le> ?y"
  proof (rule ccontr)
    assume "\<not> - 999999 \<le> ?y"
    then have "DayFromYear (?y + 1) \<le> DayFromYear (- 999999)"
      by (intro DayFromYear_mono) simp
    moreover have "DayFromYear (- 999999) < - 100000000"
      by (simp add: DayFromYear_def)
    ultimately show False
      using YearFromDay_bounds [of day] assms by linarith
  qed
  show ?thesis using lo hi by simp
qed

lemma Day_range:
  assumes "\<bar>t\<bar> \<le> 8640000000000000"
  shows "- 100000000 \<le> Day t \<and> Day t \<le> 100000000"
proof -
  have "(- 8640000000000000) div 86400000 \<le> t div (86400000 :: int)"
    using assms by (intro zdiv_mono1) simp_all
  moreover have "t div (86400000 :: int) \<le> 8640000000000000 div 86400000"
    using assms by (intro zdiv_mono1) simp_all
  ultimately show ?thesis
    by (simp add: Day_def msPerDay_def)
qed

lemma day_in_year:
  "0 \<le> day - DayFromYear (YearFromDay day) \<and>
   day - DayFromYear (YearFromDay day) < 365 + InLeapYear (YearFromDay day)"
proof -
  have "DaysInYear (YearFromDay day) = 365 + InLeapYear (YearFromDay day)"
    using DaysInYear_cases [of "YearFromDay day"] by (auto simp add: InLeapYear_def)
  then show ?thesis
    using YearFromDay_bounds [of day] by (simp add: DayFromYear_Suc)
qed

subsection \<open>The fields of a time value\<close>

lemma month_of_day:
  assumes "0 \<le> d" and "d < 365 + leap" and "leap = 0 \<or> leap = 1"
  shows "0 \<le> MonthFromDay d leap \<and> MonthFromDay d leap \<le> 11 \<and>
         1 \<le> DateFromDay d leap \<and>
         DateFromDay d leap \<le> DaysInMonth (MonthFromDay d leap) leap \<and>
         DateFromDay d leap \<le> 31"
  using assms unfolding MonthFromDay_def DateFromDay_def DaysInMonth_def monthStart_def
  by (auto split: if_splits)

lemma MakeDay_fields:
  "MakeDay (YearFromDay day) (MonthFromDay (day - DayFromYear (YearFromDay day))
       (InLeapYear (YearFromDay day)) + 1 - 1)
     (DateFromDay (day - DayFromYear (YearFromDay day)) (InLeapYear (YearFromDay day))) = day"
  by (simp add: MakeDay_def DateFromDay_def)

lemma MakeTime_fields:
  "MakeTime (HourFromTime t) (MinFromTime t) (SecFromTime t) (msFromTime t) = t mod msPerDay"
proof -
  define a where "a = t div 1000"
  define b where "b = a div 60"
  define c where "c = b div 60"
  have b_eq: "t div 60000 = b"
    using zdiv_zmult2_eq [of 60 t 1000] by (simp add: a_def b_def)
  have c_eq: "t div 3600000 = c"
    using zdiv_zmult2_eq [of 60 t 60000] by (simp add: b_eq c_def)
  have q_eq: "t div 86400000 = c div 24"
    using zdiv_zmult2_eq [of 24 t 3600000] by (simp add: c_eq)
  have t1: "t = 1000 * a + t mod 1000"
    by (simp add: a_def)
  have t2: "a = 60 * b + a mod 60"
    by (simp add: b_def)
  have t3: "b = 60 * c + b mod 60"
    by (simp add: c_def)
  have t4: "c = 24 * (c div 24) + c mod 24"
    by simp
  have t5: "t = 86400000 * (t div 86400000) + t mod 86400000"
    by simp
  show ?thesis
    unfolding MakeTime_def HourFromTime_def MinFromTime_def SecFromTime_def msFromTime_def
      msPerDay_def c_eq b_eq
    using t1 t2 t3 t4 t5 unfolding q_eq a_def [symmetric]
    by linarith
qed

lemma time_fields_range:
  "0 \<le> HourFromTime t \<and> HourFromTime t \<le> 23 \<and> 0 \<le> MinFromTime t \<and> MinFromTime t \<le> 59 \<and>
   0 \<le> SecFromTime t \<and> SecFromTime t \<le> 59 \<and> 0 \<le> msFromTime t \<and> msFromTime t \<le> 999"
proof -
  have h: "0 \<le> (t div 3600000) mod 24" "(t div 3600000) mod 24 < 24"
    by simp_all
  have m: "0 \<le> (t div 60000) mod 60" "(t div 60000) mod 60 < 60"
    by simp_all
  have s: "0 \<le> (t div 1000) mod 60" "(t div 1000) mod 60 < 60"
    by simp_all
  have f: "0 \<le> t mod 1000" "t mod 1000 < 1000"
    by simp_all
  show ?thesis
    unfolding HourFromTime_def MinFromTime_def SecFromTime_def msFromTime_def
    using h m s f by (intro conjI) linarith+
qed

subsection \<open>Digits\<close>

lemma digitVal_digitChar:
  assumes "0 \<le> n" and "n \<le> 9"
  shows "digitVal (digitChar n) = Some n"
proof -
  have "(48 + n) mod 256 = 48 + n"
    using assms by simp
  then show ?thesis
    using assms by (simp add: digitVal_def digitChar_def)
qed

lemma digitChar_not_sign:
  assumes "0 \<le> n" and "n \<le> 9"
  shows "digitChar n \<noteq> CHR ''+'' \<and> digitChar n \<noteq> CHR ''-''"
proof -
  have code: "(of_char (digitChar n) :: int) = 48 + n"
    using assms by (simp add: digitChar_def)
  have "digitChar n \<noteq> CHR ''+''"
  proof
    assume "digitChar n = CHR ''+''"
    then have "(of_char (digitChar n) :: int) = of_char CHR ''+''"
      by (rule arg_cong)
    then have "48 + n = 43"
      unfolding code by simp
    then show False
      using assms by linarith
  qed
  moreover have "digitChar n \<noteq> CHR ''-''"
  proof
    assume "digitChar n = CHR ''-''"
    then have "(of_char (digitChar n) :: int) = of_char CHR ''-''"
      by (rule arg_cong)
    then have "48 + n = 45"
      unfolding code by simp
    then show False
      using assms by linarith
  qed
  ultimately show ?thesis by simp
qed

lemma takeDigits_step:
  "0 < k \<Longrightarrow> takeDigits k acc (c # cs) =
     (case digitVal c of None \<Rightarrow> None | Some v \<Rightarrow> takeDigits (k - 1) (10 * acc + v) cs)"
  by (cases k) (auto split: option.split)

lemma takeDigits_pad2:
  assumes "0 \<le> n" and "n \<le> 99"
  shows "takeDigits 2 acc (pad2 n @ rest) = Some (100 * acc + n, rest)"
proof -
  have "0 \<le> n div 10" "n div 10 \<le> 9" "0 \<le> n mod 10" "n mod 10 \<le> 9"
    using assms by simp_all
  then have "digitVal (digitChar (n div 10)) = Some (n div 10)"
    "digitVal (digitChar (n mod 10)) = Some (n mod 10)"
    by (simp_all add: digitVal_digitChar)
  moreover have "10 * (10 * acc + n div 10) + n mod 10 = 100 * acc + n"
    by simp
  ultimately show ?thesis
    by (simp add: pad2_def takeDigits_step)
qed

lemma takeDigits_pad3:
  assumes "0 \<le> n" and "n \<le> 999"
  shows "takeDigits 3 acc (pad3 n @ rest) = Some (1000 * acc + n, rest)"
proof -
  have "0 \<le> n div 100" "n div 100 \<le> 9" "0 \<le> n mod 100" "n mod 100 \<le> 99"
    using assms by simp_all
  then have d: "digitVal (digitChar (n div 100)) = Some (n div 100)"
    and r: "takeDigits 2 (10 * acc + n div 100) (pad2 (n mod 100) @ rest) =
         Some (100 * (10 * acc + n div 100) + n mod 100, rest)"
    by (simp_all add: digitVal_digitChar takeDigits_pad2)
  have sum: "100 * (10 * acc + n div 100) + n mod 100 = 1000 * acc + n"
    by simp
  have "takeDigits 3 acc (pad3 n @ rest) =
      takeDigits 2 (10 * acc + n div 100) (pad2 (n mod 100) @ rest)"
    by (simp add: pad3_def takeDigits_step d)
  then show ?thesis
    unfolding r sum .
qed

lemma takeDigits_pad4:
  assumes "0 \<le> n" and "n \<le> 9999"
  shows "takeDigits 4 acc (pad4 n @ rest) = Some (10000 * acc + n, rest)"
proof -
  have "0 \<le> n div 1000" "n div 1000 \<le> 9" "0 \<le> n mod 1000" "n mod 1000 \<le> 999"
    using assms by simp_all
  then have d: "digitVal (digitChar (n div 1000)) = Some (n div 1000)"
    and r: "takeDigits 3 (10 * acc + n div 1000) (pad3 (n mod 1000) @ rest) =
         Some (1000 * (10 * acc + n div 1000) + n mod 1000, rest)"
    by (simp_all add: digitVal_digitChar takeDigits_pad3)
  have sum: "1000 * (10 * acc + n div 1000) + n mod 1000 = 10000 * acc + n"
    by simp
  have "takeDigits 4 acc (pad4 n @ rest) =
      takeDigits 3 (10 * acc + n div 1000) (pad3 (n mod 1000) @ rest)"
    by (simp add: pad4_def takeDigits_step d)
  then show ?thesis
    unfolding r sum .
qed

lemma takeDigits_pad6:
  assumes "0 \<le> n" and "n \<le> 999999"
  shows "takeDigits 6 acc (pad6 n @ rest) = Some (1000000 * acc + n, rest)"
proof -
  define a where "a = n div 100000"
  define m where "m = n mod 100000"
  define b where "b = m div 10000"
  define c where "c = n mod 10000"
  have hi: "0 \<le> a" "a \<le> 9"
    using assms by (simp_all add: a_def)
  have mid: "0 \<le> b" "b \<le> 9"
    by (simp_all add: b_def m_def)
  have lo: "0 \<le> c" "c \<le> 9999"
    by (simp_all add: c_def)
  have low: "m mod 10000 = c"
    by (simp add: m_def c_def mod_mod_cancel)
  have "10000 * (m div 10000) + m mod 10000 = m"
    by simp
  then have parts: "10000 * b + c = m"
    unfolding low b_def [symmetric] .
  have whole: "100000 * a + m = n"
    by (simp add: a_def m_def)
  have d1: "digitVal (digitChar a) = Some a" and d2: "digitVal (digitChar b) = Some b"
    using hi mid by (simp_all add: digitVal_digitChar)
  have r: "takeDigits 4 (10 * (10 * acc + a) + b) (pad4 c @ rest) =
      Some (10000 * (10 * (10 * acc + a) + b) + c, rest)"
    using lo by (rule takeDigits_pad4)
  have "10000 * (10 * (10 * acc + a) + b) + c = 1000000 * acc + (100000 * a + (10000 * b + c))"
    by (simp add: algebra_simps)
  then have sum: "10000 * (10 * (10 * acc + a) + b) + c = 1000000 * acc + n"
    unfolding parts whole .
  have "takeDigits 6 acc (pad6 n @ rest) =
      takeDigits 4 (10 * (10 * acc + a) + b) (pad4 c @ rest)"
    unfolding pad6_def a_def [symmetric] m_def [symmetric] b_def [symmetric] c_def [symmetric]
    by (simp add: takeDigits_step d1 d2)
  then show ?thesis
    unfolding r sum .
qed

lemma yearPart_yearText:
  assumes "- 999999 \<le> y" and "y \<le> 999999"
  shows "yearPart (yearText y @ rest) = Some (y, rest)"
proof (cases "0 \<le> y \<and> y \<le> 9999")
  case True
  then have "0 \<le> y" and "y \<le> 9999"
    by simp_all
  then have first: "0 \<le> y div 1000" "y div 1000 \<le> 9"
    by simp_all
  have shape: "yearText y @ rest = digitChar (y div 1000) # pad3 (y mod 1000) @ rest"
    using True by (simp add: yearText_def pad4_def)
  have "yearPart (yearText y @ rest) = takeDigits 4 0 (yearText y @ rest)"
    unfolding shape using digitChar_not_sign [OF first] by (simp add: yearPart_def)
  also have "\<dots> = takeDigits 4 0 (pad4 y @ rest)"
    using True by (simp add: yearText_def)
  also have "\<dots> = Some (y, rest)"
    using True by (simp add: takeDigits_pad4)
  finally show ?thesis .
next
  case False
  show ?thesis
  proof (cases "y < 0")
    case True
    then have "0 \<le> \<bar>y\<bar>" "\<bar>y\<bar> \<le> 999999" "\<bar>y\<bar> \<noteq> 0" "- \<bar>y\<bar> = y"
      using assms by simp_all
    then show ?thesis
      using True False by (simp add: yearPart_def yearText_def takeDigits_pad6)
  next
    case positive: False
    then have "0 \<le> \<bar>y\<bar>" "\<bar>y\<bar> \<le> 999999" "\<bar>y\<bar> = y"
      using assms by simp_all
    then show ?thesis
      using positive False by (simp add: yearPart_def yearText_def takeDigits_pad6)
  qed
qed

subsection \<open>Reading an ISO string back\<close>

text \<open>
  For every time value that a \<open>Date\<close> can hold, the string that \<open>toISOString\<close> writes
  is read back as that time value.
\<close>

lemma parseISO_toISOString:
  assumes "\<bar>t\<bar> \<le> 8640000000000000"
  shows "parseISO (toISOString t) = Some t"
proof -
  define y where "y = YearFromDay (Day t)"
  define leap where "leap = InLeapYear y"
  define d where "d = Day t - DayFromYear y"
  define mo where "mo = MonthFromDay d leap + 1"
  define dd where "dd = DateFromDay d leap"
  have shape: "toISOString t =
      yearText y @ CHR ''-'' # pad2 mo @ CHR ''-'' # pad2 dd @
      CHR ''T'' # pad2 (HourFromTime t) @ CHR '':'' # pad2 (MinFromTime t) @
      CHR '':'' # pad2 (SecFromTime t) @ CHR ''.'' # pad3 (msFromTime t) @ [CHR ''Z'']"
    by (simp add: toISOString_def Let_def y_def leap_def d_def mo_def dd_def)
  have year: "- 999999 \<le> y" "y \<le> 999999"
    using YearFromDay_range [of "Day t"] Day_range [OF assms] by (simp_all add: y_def)
  have "leap = 0 \<or> leap = 1"
    by (simp add: leap_def InLeapYear_def)
  moreover have "0 \<le> d" "d < 365 + leap"
    using day_in_year [of "Day t"] by (simp_all add: d_def leap_def y_def)
  ultimately have md: "0 \<le> MonthFromDay d leap \<and> MonthFromDay d leap \<le> 11 \<and>
         1 \<le> DateFromDay d leap \<and>
         DateFromDay d leap \<le> DaysInMonth (MonthFromDay d leap) leap \<and>
         DateFromDay d leap \<le> 31"
    by (intro month_of_day)
  then have month: "1 \<le> mo" "mo \<le> 12" and day: "1 \<le> dd" "dd \<le> 31"
    and legal: "dd \<le> DaysInMonth (mo - 1) (InLeapYear y)"
    by (simp_all add: mo_def dd_def leap_def)
  have fields: "0 \<le> HourFromTime t" "HourFromTime t \<le> 23" "0 \<le> MinFromTime t"
    "MinFromTime t \<le> 59" "0 \<le> SecFromTime t" "SecFromTime t \<le> 59"
    "0 \<le> msFromTime t" "msFromTime t \<le> 999"
    using time_fields_range [of t] by simp_all
  have whole: "MakeDate (MakeDay y (mo - 1) dd)
      (MakeTime (HourFromTime t) (MinFromTime t) (SecFromTime t) (msFromTime t)) = t"
  proof -
    have "MakeDay y (mo - 1) dd = Day t"
      using MakeDay_fields [of "Day t"] by (simp add: y_def mo_def dd_def d_def leap_def)
    then show ?thesis
      by (simp add: MakeDate_def MakeTime_fields Day_def)
  qed
  have two: "takeDigits 2 0 (pad2 n @ rest) = Some (n, rest)" if "0 \<le> n" "n \<le> 99" for n rest
    using takeDigits_pad2 [OF that, of 0 rest] by simp
  have three: "takeDigits 3 0 (pad3 n @ rest) = Some (n, rest)" if "0 \<le> n" "n \<le> 999" for n rest
    using takeDigits_pad3 [OF that, of 0 rest] by simp
  have f_mo: "takeDigits 2 0 (pad2 mo @ rest) = Some (mo, rest)" for rest
    using month by (intro two) simp_all
  have f_dd: "takeDigits 2 0 (pad2 dd @ rest) = Some (dd, rest)" for rest
    using day by (intro two) simp_all
  have f_h: "takeDigits 2 0 (pad2 (HourFromTime t) @ rest) = Some (HourFromTime t, rest)" for rest
    using fields by (intro two) simp_all
  have f_mi: "takeDigits 2 0 (pad2 (MinFromTime t) @ rest) = Some (MinFromTime t, rest)" for rest
    using fields by (intro two) simp_all
  have f_s: "takeDigits 2 0 (pad2 (SecFromTime t) @ rest) = Some (SecFromTime t, rest)" for rest
    using fields by (intro two) simp_all
  have f_ms: "takeDigits 3 0 (pad3 (msFromTime t) @ rest) = Some (msFromTime t, rest)" for rest
    using fields by (intro three) simp_all
  show ?thesis
    unfolding shape parseISO_def
    using month day legal fields assms
    by (simp add: yearPart_yearText [OF year] f_mo f_dd f_h f_mi f_s f_ms whole TimeClip_def)
qed

lemma toISOString_samples:
  "toISOString 1700000000000 = ''2023-11-14T22:13:20.000Z'' \<and>
   toISOString (- 1) = ''1969-12-31T23:59:59.999Z'' \<and>
   toISOString 8640000000000000 = ''+275760-09-13T00:00:00.000Z''"
  by code_simp

lemma newDate_toISOString:
  assumes "\<bar>t\<bar> \<le> 8640000000000000"
  shows "newDate hostDate (JStr (toISOString t)) = Some t"
  using parseISO_toISOString [OF assms] by (simp add: newDate_def)

section \<open>Properties of the persistence adapter\<close>

subsection \<open>The sort with a clock\<close>

lemma mset_insertTimed: "mset (fst (insertTimed cmp k x xs)) = add_mset x (mset xs)"
proof (induction xs arbitrary: k)
  case Nil
  show ?case by simp
next
  case (Cons y ys)
  obtain zs k' where rest: "insertTimed cmp (Suc k) x ys = (zs, k')"
    by (cases "insertTimed cmp (Suc k) x ys")
  then have "mset zs = add_mset x (mset ys)"
    using Cons.IH [of "Suc k"] by simp
  then show ?case
    by (simp add: rest)
qed

lemma mset_sortTimed: "mset (fst (sortTimed cmp k xs)) = mset xs"
proof (induction xs arbitrary: k)
  case Nil
  show ?case by simp
next
  case (Cons x xs)
  obtain ys k' where sorted: "sortTimed cmp k xs = (ys, k')"
    by (cases "sortTimed cmp k xs")
  then have "mset ys = mset xs"
    using Cons.IH [of k] by simp
  then show ?case
    by (simp add: sorted mset_insertTimed)
qed



subsection \<open>Saving and loading\<close>

lemma dateInv_iff: "dateInv ts = (\<forall>t \<in> set ts. \<bar>date t\<bar> \<le> 8640000000000000)"
  by (simp add: dateInv_def list_all_iff)

lemma stringify_expenseVal:
  "stringify (expenseVal e) =
     JObj [(''id'', JNum (Num (of_int (eid e)))), (''title'', JStr (title e)),
           (''amount'', if isFinite (amount e) then JNum (amount e) else JNull)]"
  by (simp add: expenseVal_def)

lemma inArray_stringify_expenseVal:
  "inArray (stringify (expenseVal e)) = stringify (expenseVal e)"
  by (simp add: stringify_expenseVal)

lemma stringify_trackerVal:
  "stringify (trackerVal t) =
     JObj [(''id'', JNum (Num (of_int (tid t)))), (''name'', JStr (name t)),
           (''date'', JStr (toISOString (date t))),
           (''expenses'', JArr (map (\<lambda>e. stringify (expenseVal e)) (expenses t))),
           (''status'', JStr (status t)), (''expanded'', JBool (expanded t))]"
  by (simp add: trackerVal_def inArray_stringify_expenseVal comp_def)

lemma rehydrate_saved:
  "rehydrate hostDate (inArray (stringify (trackerVal t))) =
     Inr (JObj [(''id'', JNum (Num (of_int (tid t)))), (''name'', JStr (name t)),
           (''date'', JDate (newDate hostDate (JStr (toISOString (date t))))),
           (''expenses'', JArr (map (\<lambda>e. stringify (expenseVal e)) (expenses t))),
           (''status'', JStr (status t)), (''expanded'', JBool (expanded t))])"
  by (simp add: stringify_trackerVal rehydrate_def)

lemma saved_array:
  "saveTrackers ts = Json (JArr (map (\<lambda>t. inArray (stringify (trackerVal t))) ts))"
  by (simp add: saveTrackers_def comp_def)

lemma loadTrackers_saved:
  assumes "\<forall>t \<in> set ts. rehydrate hostDate (inArray (stringify (trackerVal t))) = Inr (g t)"
  shows "loadTrackers hostDate clock (saveTrackers ts) =
           Inr (Some (fst (sortTimed (byProximity clock) 0 (map g ts))))"
proof -
  have "mapE (rehydrate hostDate) (map (\<lambda>t. inArray (stringify (trackerVal t))) ts) =
          Inr (map g ts)"
    using assms by (induction ts) simp_all
  then show ?thesis
    by (simp add: loadTrackers_def saved_array)
qed

lemma stringify_finite_expense:
  "isFinite (amount e) \<Longrightarrow> stringify (expenseVal e) = expenseVal e"
  by (simp add: stringify_expenseVal expenseVal_def)

lemma rehydrate_roundtrip:
  assumes "\<forall>e \<in> set (expenses t). isFinite (amount e)"
    and "\<bar>date t\<bar> \<le> 8640000000000000"
  shows "rehydrate hostDate (inArray (stringify (trackerVal t))) = Inr (trackerVal t)"
proof -
  have same: "map (\<lambda>e. stringify (expenseVal e)) (expenses t) = map expenseVal (expenses t)"
    using assms(1) by (simp add: stringify_finite_expense)
  have read: "newDate hostDate (JStr (toISOString (date t))) = Some (date t)"
    using assms(2) by (rule newDate_toISOString)
  have "JObj [(''id'', JNum (Num (of_int (tid t)))), (''name'', JStr (name t)),
           (''date'', JDate (newDate hostDate (JStr (toISOString (date t))))),
           (''expenses'', JArr (map (\<lambda>e. stringify (expenseVal e)) (expenses t))),
           (''status'', JStr (status t)), (''expanded'', JBool (expanded t))] = trackerVal t"
    unfolding same read by (simp add: trackerVal_def)
  then show ?thesis
    by (simp only: rehydrate_saved)
qed

text \<open>
  C3, as amended. When every expense amount is finite, loading what was saved succeeds
  and sets the tracker list to the objects of the saved trackers, every field, date
  and expense as it was, in some order. (Every date is the time value of a \<open>Date\<close>.)
\<close>

theorem save_load_roundtrip:
  assumes "\<forall>t \<in> set ts. \<forall>e \<in> set (expenses t). isFinite (amount e)"
    and "dateInv ts"
  shows "\<exists>vs. loadTrackers hostDate clock (saveTrackers ts) = Inr (Some vs) \<and>
              mset vs = mset (map trackerVal ts)"
proof -
  have "\<forall>t \<in> set ts.
          rehydrate hostDate (inArray (stringify (trackerVal t))) = Inr (trackerVal t)"
    using assms by (simp add: rehydrate_roundtrip dateInv_iff)
  then have "loadTrackers hostDate clock (saveTrackers ts) =
               Inr (Some (fst (sortTimed (byProximity clock) 0 (map trackerVal ts))))"
    by (rule loadTrackers_saved)
  moreover have "mset (fst (sortTimed (byProximity clock) 0 (map trackerVal ts))) =
      mset (map trackerVal ts)"
    by (rule mset_sortTimed)
  ultimately show ?thesis
    by blast
qed

lemma sample_times:
  "getTime (trackerVal groceries) = Some 1700000000000 \<and>
   getTime (trackerVal rent) = Some 1690000000000 \<and>
   getTime (trackerVal monday) = Some 1700000000000 \<and>
   getTime (trackerVal tuesday) = Some 1700000000001"
  by (simp add: getTime_def trackerVal_def groceries_def rent_def monday_def tuesday_def)

theorem save_load_roundtrip_witness:
  "isFinite (amount milk) \<and> isFinite (amount bread) \<and> dateInv [rent, groceries] \<and>
   loadTrackers strictHost tickingClock (saveTrackers [rent, groceries]) =
     Inr (Some [trackerVal groceries, trackerVal rent]) \<and>
   mset [trackerVal groceries, trackerVal rent] = mset (map trackerVal [rent, groceries])"
proof -
  have amounts: "isFinite (amount milk) \<and> isFinite (amount bread)"
    by (simp add: milk_def bread_def)
  have finite: "\<forall>t \<in> set [rent, groceries]. \<forall>e \<in> set (expenses t). isFinite (amount e)"
    using amounts by (simp add: groceries_def rent_def)
  have dates: "dateInv [rent, groceries]"
    by (simp add: dateInv_def groceries_def rent_def)
  have "\<forall>t \<in> set [rent, groceries].
      rehydrate strictHost (inArray (stringify (trackerVal t))) = Inr (trackerVal t)"
    using finite dates by (simp add: rehydrate_roundtrip dateInv_iff)
  from loadTrackers_saved [OF this, of tickingClock]
  have run: "loadTrackers strictHost tickingClock (saveTrackers [rent, groceries]) =
      Inr (Some [trackerVal groceries, trackerVal rent])"
    using sample_times by (simp add: sortCompare_def byProximity_def tickingClock_def)
  from save_load_roundtrip [OF finite dates, of strictHost tickingClock]
  obtain vs where "loadTrackers strictHost tickingClock (saveTrackers [rent, groceries]) =
      Inr (Some vs)" and same: "mset vs = mset (map trackerVal [rent, groceries])"
    by blast
  with run have "vs = [trackerVal groceries, trackerVal rent]"
    by simp
  with same have "mset [trackerVal groceries, trackerVal rent] =
      mset (map trackerVal [rent, groceries])"
    by simp
  with amounts dates run show ?thesis
    by blast
qed

text \<open>
  C3 as stated fails on a tracker holding an expense whose amount is \<open>NaN\<close>:
  \<open>JSON.stringify\<close> writes \<open>null\<close> for it, and the loaded expense has the amount
  \<open>null\<close>, so the loaded object is not the object that was saved.
\<close>

theorem save_load_nan_counterexample:
  "loadTrackers strictHost tickingClock (saveTrackers [market]) =
     Inr (Some [JObj [(''id'', JNum (Num 1700000000000)), (''name'', JStr ''Market''),
                      (''date'', JDate (Some 1700000000000)),
                      (''expenses'', JArr [JObj [(''id'', JNum (Num 1700000009000)),
                                                 (''title'', JStr ''Eggs''),
                                                 (''amount'', JNull)]]),
                      (''status'', JStr InProgress), (''expanded'', JBool True)]]) \<and>
   trackerVal market =
     JObj [(''id'', JNum (Num 1700000000000)), (''name'', JStr ''Market''),
           (''date'', JDate (Some 1700000000000)),
           (''expenses'', JArr [JObj [(''id'', JNum (Num 1700000009000)),
                                      (''title'', JStr ''Eggs''),
                                      (''amount'', JNum NaN)]]),
           (''status'', JStr InProgress), (''expanded'', JBool True)] \<and>
   loadTrackers strictHost tickingClock (saveTrackers [market]) \<noteq>
     Inr (Some [trackerVal market])"
proof -
  have read: "newDate strictHost (JStr (toISOString 1700000000000)) = Some 1700000000000"
    by (rule newDate_toISOString) simp
  have loaded: "rehydrate strictHost (inArray (stringify (trackerVal market))) =
      Inr (JObj [(''id'', JNum (Num 1700000000000)), (''name'', JStr ''Market''),
                 (''date'', JDate (Some 1700000000000)),
                 (''expenses'', JArr [JObj [(''id'', JNum (Num 1700000009000)),
                                            (''title'', JStr ''Eggs''),
                                            (''amount'', JNull)]]),
                 (''status'', JStr InProgress), (''expanded'', JBool True)])"
    by (simp add: rehydrate_saved stringify_expenseVal market_def eggs_def read)
  have "\<forall>t \<in> set [market].
      rehydrate strictHost (inArray (stringify (trackerVal t))) =
      Inr ((\<lambda>t. JObj [(''id'', JNum (Num 1700000000000)), (''name'', JStr ''Market''),
                 (''date'', JDate (Some 1700000000000)),
                 (''expenses'', JArr [JObj [(''id'', JNum (Num 1700000009000)),
                                            (''title'', JStr ''Eggs''),
                                            (''amount'', JNull)]]),
                 (''status'', JStr InProgress), (''expanded'', JBool True)]) t)"
    using loaded by simp
  from loadTrackers_saved [OF this, of tickingClock]
  have run: "loadTrackers strictHost tickingClock (saveTrackers [market]) =
     Inr (Some [JObj [(''id'', JNum (Num 1700000000000)), (''name'', JStr ''Market''),
                      (''date'', JDate (Some 1700000000000)),
                      (''expenses'', JArr [JObj [(''id'', JNum (Num 1700000009000)),
                                                 (''title'', JStr ''Eggs''),
                                                 (''amount'', JNull)]]),
                      (''status'', JStr InProgress), (''expanded'', JBool True)]])"
    by simp
  have obj: "trackerVal market =
     JObj [(''id'', JNum (Num 1700000000000)), (''name'', JStr ''Market''),
           (''date'', JDate (Some 1700000000000)),
           (''expenses'', JArr [JObj [(''id'', JNum (Num 1700000009000)),
                                      (''title'', JStr ''Eggs''),
                                      (''amount'', JNum NaN)]]),
           (''status'', JStr InProgress), (''expanded'', JBool True)]"
    by (simp add: trackerVal_def expenseVal_def market_def eggs_def)
  show ?thesis
    unfolding run obj by simp
qed

subsection \<open>Order after loading\<close>







end
